theory Spec2Isabelle
  imports Complex_Main "HOL-Library.AList" "HOL-Library.Sublist"
begin

section \<open>The worker of the distributed test runner (infra/slave.py)\<close>

text \<open>
  A shallow embedding of \<^verbatim>\<open>infra/slave.py\<close>: the retry cache, the artifact archiver,
  the supervised runner, the payload download with retries, the task executor with its
  retry and cancellation policy, and the main loop.

  The file imports \<^verbatim>\<open>urllib.request\<close>, \<^verbatim>\<open>urllib.parse\<close> and \<^verbatim>\<open>urllib.error\<close>, modules
  of Python 3 only, so the program is read as Python 3: text is \<^verbatim>\<open>str\<close>, what a pipe or
  a zip archive holds is \<^verbatim>\<open>bytes\<close>, the two do not mix, and there is no builtin
  \<^verbatim>\<open>file\<close>.

  Python exceptions are values of the type \<open>error\<close>; every exception of the model is an
  instance of Python's \<^verbatim>\<open>Exception\<close>, so both \<^verbatim>\<open>except:\<close> and
  \<^verbatim>\<open>except Exception\<close> catch it. The string is what \<^verbatim>\<open>str(e)\<close> gives.
\<close>

datatype error =
    Exception string
  | KeyError string
  | URLError string
  | ValueError string
  | OSError string
  | AttributeError string
  | TypeError string
  | NameError string

fun str :: "error \<Rightarrow> string" where
  "str (Exception m) = m"
| "str (KeyError m) = m"
| "str (URLError m) = m"
| "str (ValueError m) = m"
| "str (OSError m) = m"
| "str (AttributeError m) = m"
| "str (TypeError m) = m"
| "str (NameError m) = m"

text \<open>
  The messages of the exceptions that CPython raises where the program mixes text and
  bytes or names \<^verbatim>\<open>file\<close>:
  \<^item> \<^verbatim>\<open>s += x\<close> with \<^verbatim>\<open>s\<close> a \<^verbatim>\<open>str\<close> and \<^verbatim>\<open>x\<close> a \<^verbatim>\<open>bytes\<close> object;
  \<^item> \<^verbatim>\<open>io.StringIO.write\<close> called with \<^verbatim>\<open>bytes\<close>;
  \<^item> \<^verbatim>\<open>urllib.request.urlopen(url, data)\<close> called with \<^verbatim>\<open>data\<close> a \<^verbatim>\<open>str\<close>;
  \<^item> the evaluation of the name \<^verbatim>\<open>file\<close>.
\<close>

definition concat_bytes_message :: string where
  "concat_bytes_message =
     ''can only concatenate str (not '' @ [CHR 0x22] @ ''bytes'' @ [CHR 0x22] @ '') to str''"

definition string_argument_message :: string where
  "string_argument_message = ''string argument expected, got 'bytes'' @ [CHR 0x27]"

definition post_data_message :: string where
  "post_data_message =
     ''POST data should be bytes, an iterable of bytes, or a file object. ''
     @ ''It cannot be of type str.''"

definition file_undefined_message :: string where
  "file_undefined_message = ''name 'file' is not defined''"

subsection \<open>RetryCache\<close>

text \<open>
  \<^verbatim>\<open>self.cache\<close> is a \<^verbatim>\<open>collections.OrderedDict\<close>: an association list with distinct
  keys, oldest insertion first. Of the dictionary's operations the class uses
  \<^item> \<^verbatim>\<open>d[k] = v\<close>: \<^const>\<open>AList.update\<close>, which overwrites the value of a key that is
    present where it stands and appends a new key at the end;
  \<^item> \<^verbatim>\<open>del d[k]\<close>: \<^const>\<open>AList.delete\<close>;
  \<^item> \<^verbatim>\<open>d.popitem()\<close>: called without argument, so with \<^verbatim>\<open>last=True\<close>; it removes the
    pair at the end (the one inserted last) and raises \<^verbatim>\<open>KeyError\<close> on an empty
    dictionary.
  Counts and bounds are Python integers.
\<close>

record 'a RetryCache =
  cache :: "('a \<times> int) list"
  max_size :: int
  max_count :: int

definition RetryCache_init :: "int \<Rightarrow> int \<Rightarrow> 'a RetryCache" where
  "RetryCache_init msize mcount = \<lparr>cache = [], max_size = msize, max_count = mcount\<rparr>"

text \<open>\<^verbatim>\<open>RetryCache()\<close>, as the worker creates it: \<^verbatim>\<open>max_size=100, max_count=10\<close>.\<close>

definition RetryCache_default :: "'a RetryCache" where
  "RetryCache_default = RetryCache_init 100 10"

definition popitem :: "('a \<times> int) list \<Rightarrow> error + ('a \<times> int) list" where
  "popitem d = (if d = [] then Inl (KeyError ''dictionary is empty'') else Inr (butlast d))"

text \<open>
  \<^verbatim>\<open>get\<close> returns \<^verbatim>\<open>None\<close> or the item. The test is on the count read before the
  increment: \<^verbatim>\<open>if count > self.max_count\<close>.
\<close>

definition get :: "'a RetryCache \<Rightarrow> 'a \<Rightarrow> 'a option \<times> 'a RetryCache" where
  "get c item =
     (case map_of (cache c) item of
        None \<Rightarrow> (None, c)
      | Some count \<Rightarrow>
          if count > max_count c
          then (Some item, c\<lparr>cache := AList.delete item (cache c)\<rparr>)
          else (Some item, c\<lparr>cache := AList.update item (count + 1) (cache c)\<rparr>))"

definition put :: "'a RetryCache \<Rightarrow> 'a \<Rightarrow> error + 'a RetryCache" where
  "put c item =
     (if int (length (cache c)) = max_size c
      then (case popitem (cache c) of
              Inl e \<Rightarrow> Inl e
            | Inr d \<Rightarrow> Inr (c\<lparr>cache := AList.update item 0 d\<rparr>))
      else Inr (c\<lparr>cache := AList.update item 0 (cache c)\<rparr>))"

text \<open>\<open>n\<close> successive calls of \<^verbatim>\<open>get\<close> on one item: the answers in order, and the cache left.\<close>

fun gets :: "nat \<Rightarrow> 'a RetryCache \<Rightarrow> 'a \<Rightarrow> 'a option list \<times> 'a RetryCache" where
  "gets 0 c item = ([], c)"
| "gets (Suc n) c item =
     (let (r, c1) = get c item; (rs, c2) = gets n c1 item in (r # rs, c2))"

text \<open>The invariant of an ordered dictionary: no key twice.\<close>

definition wf_cache :: "'a RetryCache \<Rightarrow> bool" where
  "wf_cache c = distinct (map fst (cache c))"

subsection \<open>Strings and paths\<close>

text \<open>
  \<^verbatim>\<open>"%d" % n\<close>: the decimal digits of an integer, with a minus sign when it is negative.
\<close>

fun show_nat :: "nat \<Rightarrow> string" where
  "show_nat n =
     (if n < 10 then [''0123456789'' ! n]
      else show_nat (n div 10) @ [''0123456789'' ! (n mod 10)])"

declare show_nat.simps [simp del]

definition show_int :: "int \<Rightarrow> string" where
  "show_int i = (if i < 0 then ''-'' @ show_nat (nat (- i)) else show_nat (nat i))"

definition newline :: string where
  "newline = [CHR 0x0A]"

text \<open>\<^verbatim>\<open>s.startswith(p)\<close> is \<^term>\<open>prefix p s\<close>; \<^verbatim>\<open>s.endswith(p)\<close> is \<^term>\<open>suffix p s\<close>.\<close>

text \<open>\<^verbatim>\<open>os.path.join(a, b)\<close> of \<^verbatim>\<open>posixpath\<close>.\<close>

definition join :: "string \<Rightarrow> string \<Rightarrow> string" where
  "join a b =
     (if prefix ''/'' b then b
      else if a = [] \<or> suffix ''/'' a then a @ b
      else a @ ''/'' @ b)"

text \<open>
  The loop \<^verbatim>\<open>while arcname.startswith("/"): arcname = arcname[1:]\<close>.
\<close>

fun strip_slashes :: "string \<Rightarrow> string" where
  "strip_slashes [] = []"
| "strip_slashes (c # cs) = (if c = CHR ''/'' then strip_slashes cs else c # cs)"

subsection \<open>Tasks\<close>

text \<open>
  \<^verbatim>\<open>dist_test.Task\<close> is declared outside this file; the record holds the attributes the
  worker reads, with the values of the methods \<^verbatim>\<open>get_id()\<close>, \<^verbatim>\<open>get_retry_id()\<close> and
  \<^verbatim>\<open>to_json()\<close> as fields.
\<close>

record task =
  task_id :: string
  job_id :: string
  retry_id :: string
  description :: string
  isolate_hash :: string
  docker_image :: "string option"
  timeout :: int
  attempt :: int
  max_retries :: int
  artifact_archive_globs :: "string list option"
  to_json :: string

subsection \<open>make_archive\<close>

text \<open>
  What the archiver reads from the file system: the matches of a glob pattern in the
  order \<^verbatim>\<open>glob2.iglob\<close> yields them (an exception raised by the generator ends the
  iteration, is caught by the \<^verbatim>\<open>except\<close> of the loop and only logged, so the list
  holds what was yielded before it), \<^verbatim>\<open>os.path.realpath\<close>, the size given by
  \<^verbatim>\<open>os.stat\<close> (which raises for a path that cannot be read), and \<^verbatim>\<open>os.path.relpath\<close>.
\<close>

record filesystem =
  iglob :: "string \<Rightarrow> string list"
  realpath :: "string \<Rightarrow> string"
  st_size :: "string \<Rightarrow> error + nat"
  relpath :: "string \<Rightarrow> string \<Rightarrow> string"

text \<open>
  A zip archive in memory: the compression it was opened with and the members written,
  \<^verbatim>\<open>writestr(arcname, data)\<close> or \<^verbatim>\<open>write(filename, arcname)\<close>.
\<close>

datatype compression = ZIP_STORED | ZIP_DEFLATED

datatype zip_member =
    Writestr string string
  | Write string string

record archive =
  compression :: compression
  members :: "zip_member list"

text \<open>
  The inner loop \<^verbatim>\<open>for m in matched\<close>. The accumulator is \<^verbatim>\<open>(all_matched, total_size)\<close>;
  \<^verbatim>\<open>all_matched\<close> is a Python set, kept here as a list without repetition (Python leaves
  the order of a set open, so only the set of its elements means anything). A match
  whose canonical path does not start with \<^verbatim>\<open>test_dir\<close> is skipped; an exception of
  \<^verbatim>\<open>os.stat\<close> leaves the loop with what was accumulated.
\<close>

fun scan_matches ::
  "filesystem \<Rightarrow> string \<Rightarrow> string list \<Rightarrow> string list \<times> nat \<Rightarrow> string list \<times> nat" where
  "scan_matches fs test_dir [] acc = acc"
| "scan_matches fs test_dir (m # ms) (all_matched, total_size) =
     (let canonical = realpath fs m in
      if \<not> prefix test_dir canonical
      then scan_matches fs test_dir ms (all_matched, total_size)
      else (case st_size fs canonical of
              Inl e \<Rightarrow> (all_matched, total_size)
            | Inr n \<Rightarrow>
                scan_matches fs test_dir ms
                  (List.insert canonical all_matched, total_size + n)))"

text \<open>The outer loop \<^verbatim>\<open>for g in task.task.artifact_archive_globs\<close>.\<close>

fun scan_globs ::
  "filesystem \<Rightarrow> string \<Rightarrow> string list \<Rightarrow> string list \<times> nat \<Rightarrow> string list \<times> nat" where
  "scan_globs fs test_dir [] acc = acc"
| "scan_globs fs test_dir (g # gs) acc =
     scan_globs fs test_dir gs
       (scan_matches fs test_dir (iglob fs (test_dir @ ''/'' @ g)) acc)"

text \<open>\<^verbatim>\<open>max_size = 200*1024*1024\<close>, the local constant of \<^verbatim>\<open>make_archive\<close>.\<close>

definition archive_max_size :: nat where
  "archive_max_size = 200 * 1024 * 1024"

definition too_big_message :: "nat \<Rightarrow> string" where
  "too_big_message total_size =
     ''Size of matched uncompressed test artifacts exceeded maximum size''
     @ ''('' @ show_nat total_size @ '' bytes > '' @ show_nat archive_max_size @ '' bytes)!''"

text \<open>
  The block \<^verbatim>\<open>with zipfile.ZipFile(archive_buffer, "w", ...) as myzip\<close> with the members
  it is to write, where \<^verbatim>\<open>archive_buffer = io.StringIO()\<close>. \<^verbatim>\<open>ZipFile\<close> writes
  \<^verbatim>\<open>bytes\<close> to its file object and \<^verbatim>\<open>io.StringIO.write\<close> takes \<^verbatim>\<open>str\<close> only: the
  first \<^verbatim>\<open>writestr\<close> or \<^verbatim>\<open>write\<close> raises \<^verbatim>\<open>TypeError\<close> when it writes the header of the
  member, and the \<^verbatim>\<open>close\<close> at the end of the block raises the same when it writes the
  end record. Whatever the members, a \<^verbatim>\<open>TypeError\<close> leaves the block, and the
  \<^verbatim>\<open>return archive_buffer\<close> after it is not reached.
\<close>

definition zip_into_StringIO :: "compression \<Rightarrow> zip_member list \<Rightarrow> error + archive option" where
  "zip_into_StringIO c ms = Inl (TypeError string_argument_message)"

definition make_archive :: "filesystem \<Rightarrow> task \<Rightarrow> string option \<Rightarrow> error + archive option" where
  "make_archive fs t test_dir_opt =
     (case test_dir_opt of
        None \<Rightarrow> Inr None
      | Some test_dir \<Rightarrow>
          (case artifact_archive_globs t of
             None \<Rightarrow> Inr None
           | Some globs \<Rightarrow>
               if length globs = 0 then Inr None
               else
                 let (all_matched, total_size) = scan_globs fs test_dir globs ([], 0) in
                 if length all_matched = 0 then Inr None
                 else if total_size > archive_max_size
                 then zip_into_StringIO ZIP_STORED
                        [Writestr ''_ARCHIVE_TOO_BIG_'' (too_big_message total_size)]
                 else zip_into_StringIO ZIP_DEFLATED
                        (map (\<lambda>m. Write m (strip_slashes (relpath fs m test_dir)))
                           all_matched)))"

subsection \<open>Effects and outcomes\<close>

text \<open>
  What the worker does to the outside is recorded as a trace of events, oldest first:
  calls of \<^verbatim>\<open>subprocess.Popen\<close> (with the argument vector and \<^verbatim>\<open>cwd\<close>), signals sent to
  the child, calls of the queue element, of the results store, of the file system, of
  \<^verbatim>\<open>time.sleep\<close>, requests sent by \<^verbatim>\<open>urllib.request.urlopen\<close> (the URL and the POST
  data) and writes to \<^verbatim>\<open>sys.stderr\<close>. Log lines are not recorded.
\<close>

datatype event =
    Popen "string list" "string option"
  | Terminate
  | Kill
  | Touch
  | MarkTaskRunning
  | MarkTaskFinished int "string option" "string option" "archive option" real
  | MakeTempDir string
  | Rmtree string
  | Makedirs string
  | MakeTreeWriteable string
  | Sleep nat
  | CountNumFailedTasks
  | Urlopen string "string option"
  | StderrWrite string
  | ReserveTask
  | Release
  | Delete

text \<open>
  A call returns a value, raises, or never returns (a child that never exits is waited
  for without end).
\<close>

datatype 'a outcome = Return 'a | Raise error | Hang

definition and_then ::
  "'a outcome \<times> 's \<Rightarrow> ('a \<Rightarrow> 's \<Rightarrow> 'b outcome \<times> 's) \<Rightarrow> 'b outcome \<times> 's" where
  "and_then m f =
     (case m of
        (Return x, s) \<Rightarrow> f x s
      | (Raise e, s) \<Rightarrow> (Raise e, s)
      | (Hang, s) \<Rightarrow> (Hang, s))"

subsection \<open>run_command_and_touch_task: the supervising loop\<close>

text \<open>
  One pass of the \<^verbatim>\<open>while True\<close> loop sees: what \<^verbatim>\<open>select\<close> reported and the reads gave
  (\<open>None\<close> when the pipe was not in \<^verbatim>\<open>rlist\<close>, else the \<^verbatim>\<open>bytes\<close> read, empty at the end of
  the stream), whether \<^verbatim>\<open>xlist\<close> was non-empty, the result of \<^verbatim>\<open>p.poll()\<close>, and the three
  readings of \<^verbatim>\<open>time.time()\<close> in the order of the source (\<^verbatim>\<open>now\<close>, the one compared with
  \<^verbatim>\<open>last_touch\<close>, the one stored into \<^verbatim>\<open>last_touch\<close>). Clock readings are real numbers
  of seconds.
\<close>

record observation =
  read_stdout :: "string option"
  read_stderr :: "string option"
  xlist :: bool
  poll :: "int option"
  now :: real
  now_touch :: real
  now_touched :: real

text \<open>
  A child process as the runner meets it: the clock when it was started, the passes of
  the loop, and what \<^verbatim>\<open>p.wait()\<close> gives for a child that \<^verbatim>\<open>poll\<close> has not yet seen exit
  (\<open>None\<close>: it never exits).
\<close>

record process =
  started :: real
  wakeups :: "observation list"
  wait :: "int option"

record runner =
  stdout :: string
  stderr :: string
  last_touch :: real
  sent :: "event list"

definition killing_message :: "int \<Rightarrow> string" where
  "killing_message t_out =
     newline @ ''------'' @ newline @ ''Killing task after '' @ show_int t_out @ '' seconds''"

text \<open>
  The body of the loop. \<^verbatim>\<open>stdout\<close> and \<^verbatim>\<open>stderr\<close> start as the \<^verbatim>\<open>str\<close> \<^verbatim>\<open>""\<close>, and the
  pipes of \<^verbatim>\<open>Popen\<close> are binary: for a pipe in \<^verbatim>\<open>rlist\<close> the read gives \<^verbatim>\<open>bytes\<close>, and
  \<^verbatim>\<open>stdout += x\<close> (or \<^verbatim>\<open>stderr += x\<close>) raises \<^verbatim>\<open>TypeError\<close>. Nothing catches it in the
  loop, so the pass ends there and the exception leaves the function.

  When no pipe was readable, the first component of the result says whether the loop
  was left by \<^verbatim>\<open>break\<close>. A failure of \<^verbatim>\<open>task.bs_elem.touch()\<close> is caught and logged, so
  it changes nothing here.
\<close>

definition loop_body ::
  "int \<Rightarrow> real \<Rightarrow> real \<Rightarrow> observation \<Rightarrow> runner \<Rightarrow> error + bool \<times> runner" where
  "loop_body t_out kill_term_time kill_kill_time ob r =
     (case read_stdout ob of
        Some x \<Rightarrow> Inl (TypeError concat_bytes_message)
      | None \<Rightarrow>
          (case read_stderr ob of
             Some x \<Rightarrow> Inl (TypeError concat_bytes_message)
           | None \<Rightarrow>
               if xlist ob \<or> poll ob \<noteq> None then Inr (True, r)
               else
                 let r3 = (if t_out > 0 \<and> now ob > kill_term_time
                           then r\<lparr>stderr := stderr r @ killing_message t_out,
                                  sent := sent r @ [Terminate]\<rparr>
                           else r);
                     r4 = (if t_out > 0 \<and> now ob > kill_kill_time
                           then r3\<lparr>sent := sent r3 @ [Kill]\<rparr>
                           else r3);
                     r5 = (if now_touch ob - last_touch r4 > 10
                           then r4\<lparr>sent := sent r4 @ [Touch], last_touch := now_touched ob\<rparr>
                           else r4)
                 in Inr (False, r5)))"

text \<open>
  The loop over the passes given. The first component is the exception that left the
  loop, or \<open>Some ob\<close> when the loop was left by \<^verbatim>\<open>break\<close> at the pass \<open>ob\<close>, or \<open>None\<close> when
  the passes are used up and the loop is still running.
\<close>

fun supervise ::
  "int \<Rightarrow> real \<Rightarrow> real \<Rightarrow> observation list \<Rightarrow> runner
     \<Rightarrow> (error + observation option) \<times> runner" where
  "supervise t_out kill_term_time kill_kill_time [] r = (Inr None, r)"
| "supervise t_out kill_term_time kill_kill_time (ob # obs) r =
     (case loop_body t_out kill_term_time kill_kill_time ob r of
        Inl e \<Rightarrow> (Inl e, r)
      | Inr (True, r') \<Rightarrow> (Inr (Some ob), r')
      | Inr (False, r') \<Rightarrow> supervise t_out kill_term_time kill_kill_time obs r')"

text \<open>
  The whole supervised run of a started child: \<^verbatim>\<open>(p.wait(), stdout, stderr)\<close> when it
  returns, and the signals and touches sent in any case.
\<close>

definition supervised_run ::
  "int \<Rightarrow> process \<Rightarrow> (int \<times> string \<times> string) outcome \<times> event list" where
  "supervised_run t_out p =
     (let last_touch0 = started p;
          kill_term_time = last_touch0 + of_int t_out;
          kill_kill_time = kill_term_time + 5;
          r0 = \<lparr>stdout = [], stderr = [], last_touch = last_touch0, sent = []\<rparr>
      in
      case supervise t_out kill_term_time kill_kill_time (wakeups p) r0 of
        (Inl e, r) \<Rightarrow> (Raise e, sent r)
      | (Inr None, r) \<Rightarrow> (Hang, sent r)
      | (Inr (Some ob), r) \<Rightarrow>
          (case poll ob of
             Some code \<Rightarrow> (Return (code, stdout r, stderr r), sent r)
           | None \<Rightarrow>
               (case wait p of
                  None \<Rightarrow> (Hang, sent r)
                | Some code \<Rightarrow> (Return (code, stdout r, stderr r), sent r))))"

subsection \<open>The worker and its surroundings\<close>

text \<open>
  The parsed \<^verbatim>\<open>task.isolated\<close> file: \<^verbatim>\<open>isolated_info['command']\<close> raises \<^verbatim>\<open>KeyError\<close>
  when the key is missing, \<^verbatim>\<open>isolated_info.get('relative_cwd', '')\<close> does not.
\<close>

record manifest =
  command :: "string list option"
  relative_cwd :: "string option"

text \<open>
  The answer of the master to a request: \<^verbatim>\<open>urlopen(...).read()\<close> raises, or
  \<^verbatim>\<open>json.loads\<close> raises on the body, or the body parses and \<^verbatim>\<open>result.get('status')\<close>
  and \<^verbatim>\<open>repr(result)\<close> are read from it.
\<close>

datatype reply =
    Raises error
  | Malformed error
  | Result "string option" string

text \<open>
  How the outside answers while one reserved task is handled. The \<open>n\<close>-th call of
  \<^verbatim>\<open>subprocess.Popen\<close> raises (a command that cannot be started) or starts the child
  \<open>procs n\<close>; \<open>master url\<close> is the master's answer to a request for \<open>url\<close>. The functions
  \<^verbatim>\<open>file_path.ensure_command_has_abs_path\<close> and \<^verbatim>\<open>urllib.parse.urlencode\<close> (of the single
  field \<^verbatim>\<open>task_json\<close>; it returns a \<^verbatim>\<open>str\<close>) are declared outside this file and taken as
  given.
\<close>

record world =
  reserve_task :: "error + task"
  mark_task_running :: bool
  make_temp_dir :: string
  time_start :: real
  time_end :: real
  procs :: "nat \<Rightarrow> error + process"
  ensure_command_has_abs_path :: "string list \<Rightarrow> string option \<Rightarrow> string list"
  geteuid :: nat
  files :: filesystem
  count_num_failed_tasks :: int
  master :: "string \<Rightarrow> reply"
  urlencode :: "string \<Rightarrow> string"

text \<open>The worker: the fields of \<^verbatim>\<open>Slave\<close>, its configuration, and the trace.\<close>

record slave =
  ISOLATE_HOME :: string
  ISOLATE_SERVER :: string
  DIST_TEST_MASTER :: string
  cache_dir :: string
  cur_task :: "task option"
  is_busy :: bool
  retry_cache :: "string RetryCache"
  spawned :: nat
  trace :: "event list"

definition emit :: "event list \<Rightarrow> slave \<Rightarrow> slave" where
  "emit evs s = s\<lparr>trace := trace s @ evs\<rparr>"

text \<open>\<^verbatim>\<open>NUM_DOWNLOAD_ATTEMPTS_PER_TASK = 3\<close>\<close>

definition NUM_DOWNLOAD_ATTEMPTS_PER_TASK :: nat where
  "NUM_DOWNLOAD_ATTEMPTS_PER_TASK = 3"

text \<open>
  \<^verbatim>\<open>run_command_and_touch_task(cmd, task, timeout, cwd=...)\<close>: call \<^verbatim>\<open>Popen\<close> and
  supervise the child. What \<^verbatim>\<open>Popen\<close> or the loop raise leaves the function.
\<close>

definition run_command_and_touch_task ::
  "world \<Rightarrow> string list \<Rightarrow> int \<Rightarrow> string option \<Rightarrow> slave
     \<Rightarrow> (int \<times> string \<times> string) outcome \<times> slave" where
  "run_command_and_touch_task w cmd t_out cwd s =
     (let s1 = emit [Popen cmd cwd] (s\<lparr>spawned := spawned s + 1\<rparr>) in
      case procs w (spawned s) of
        Inl e \<Rightarrow> (Raise e, s1)
      | Inr p \<Rightarrow>
          let (res, evs) = supervised_run t_out p
          in (res, emit evs s1))"

subsection \<open>download_task_files and its retries\<close>

definition download_cmd_base :: "slave \<Rightarrow> string list" where
  "download_cmd_base s =
     [join (ISOLATE_HOME s) ''isolateserver.py'',
      ''download'',
      ''--isolate-server='' @ ISOLATE_SERVER s,
      ''--cache='' @ cache_dir s,
      ''--verbose'']"

definition download_cmd_files :: "slave \<Rightarrow> task \<Rightarrow> string \<Rightarrow> string list" where
  "download_cmd_files s t test_dir =
     download_cmd_base s @ [''-i'', isolate_hash t, ''--target'', test_dir]"

definition download_cmd_isolated :: "slave \<Rightarrow> task \<Rightarrow> string \<Rightarrow> string list" where
  "download_cmd_isolated s t test_dir =
     download_cmd_base s @ [''-f'', isolate_hash t, join test_dir ''task.isolated'']"

text \<open>
  The last statement is \<^verbatim>\<open>return json.load(file(isolated_path))\<close>; there is no
  \<^verbatim>\<open>file\<close>, so the evaluation of the argument raises \<^verbatim>\<open>NameError\<close> and the function
  never returns a manifest.
\<close>

definition download_task_files ::
  "world \<Rightarrow> task \<Rightarrow> string \<Rightarrow> slave \<Rightarrow> manifest outcome \<times> slave" where
  "download_task_files w t test_dir s =
     and_then (run_command_and_touch_task w (download_cmd_files s t test_dir) 600 None s)
       (\<lambda>(rc, out, err) s1.
          if rc \<noteq> 0
          then (Raise (Exception (''failed to download task files: '' @ err)), s1)
          else
            and_then
              (run_command_and_touch_task w (download_cmd_isolated s t test_dir) 600 None s1)
              (\<lambda>(rc, out, err) s2.
                 if rc \<noteq> 0
                 then (Raise (Exception (''failed to download task files: '' @ err)), s2)
                 else
                   let s3 = emit [MakeTreeWriteable test_dir] s2 in
                   (Raise (NameError file_undefined_message), s3)))"

text \<open>
  The loop \<^verbatim>\<open>for rem_attempts in reversed(range(NUM_DOWNLOAD_ATTEMPTS_PER_TASK))\<close>. A loop
  that ends without \<^verbatim>\<open>return\<close> makes the function return \<^verbatim>\<open>None\<close>.
\<close>

fun download_loop ::
  "world \<Rightarrow> task \<Rightarrow> string \<Rightarrow> nat list \<Rightarrow> slave \<Rightarrow> manifest option outcome \<times> slave" where
  "download_loop w t test_dir [] s = (Return None, s)"
| "download_loop w t test_dir (rem_attempts # rest) s =
     (case download_task_files w t test_dir s of
        (Return m, s1) \<Rightarrow> (Return (Some m), s1)
      | (Hang, s1) \<Rightarrow> (Hang, s1)
      | (Raise e, s1) \<Rightarrow>
          if rem_attempts = 0 then (Raise e, s1)
          else download_loop w t test_dir rest
                 (emit [Rmtree test_dir, Makedirs test_dir, Sleep 5] s1))"

definition download_task_files_with_retries ::
  "world \<Rightarrow> task \<Rightarrow> string \<Rightarrow> slave \<Rightarrow> manifest option outcome \<times> slave" where
  "download_task_files_with_retries w t test_dir s =
     download_loop w t test_dir (rev [0..<NUM_DOWNLOAD_ATTEMPTS_PER_TASK]) s"

subsection \<open>cancel_job and submit_retry_task\<close>

text \<open>The URLs of the master's two endpoints, and the lines written to \<^verbatim>\<open>sys.stderr\<close>.\<close>

definition cancel_job_url :: "slave \<Rightarrow> string \<Rightarrow> string" where
  "cancel_job_url s jid = DIST_TEST_MASTER s @ ''/cancel_job?job_id='' @ jid"

definition retry_task_url :: "slave \<Rightarrow> string" where
  "retry_task_url s = DIST_TEST_MASTER s @ ''/retry_task''"

definition unable_to_cancel :: "string \<Rightarrow> string \<Rightarrow> string" where
  "unable_to_cancel jid what = ''Unable to cancel job '' @ jid @ '': '' @ what"

definition unable_to_submit :: "string \<Rightarrow> string" where
  "unable_to_submit what = ''Unable to submit retry task: '' @ what @ newline"

text \<open>
  \<^verbatim>\<open>urllib.request.urlopen(url, data).read()\<close> and the parsing of the body. Without
  \<^verbatim>\<open>data\<close> the request is sent and the master answers. With \<^verbatim>\<open>data\<close> a \<^verbatim>\<open>str\<close>,
  \<^verbatim>\<open>urlopen\<close> raises \<^verbatim>\<open>TypeError\<close> while it prepares the request, before anything is
  sent: POST data has to be \<^verbatim>\<open>bytes\<close>.
\<close>

definition urlopen :: "world \<Rightarrow> string \<Rightarrow> string option \<Rightarrow> slave \<Rightarrow> reply \<times> slave" where
  "urlopen w url data s =
     (case data of
        None \<Rightarrow> (master w url, emit [Urlopen url None] s)
      | Some form_data \<Rightarrow> (Raises (TypeError post_data_message), s))"

text \<open>
  \<^verbatim>\<open>cancel_job\<close>: the request and the reading of its answer stand in a \<^verbatim>\<open>try\<close> whose
  \<^verbatim>\<open>except Exception\<close> writes to stderr. (The write for a status other than
  \<^verbatim>\<open>SUCCESS\<close> has no newline in the source.)
\<close>

definition cancel_job :: "world \<Rightarrow> string \<Rightarrow> slave \<Rightarrow> unit outcome \<times> slave" where
  "cancel_job w jid s =
     (let url = cancel_job_url s jid in
      case urlopen w url None s of
        (Raises e, s1) \<Rightarrow>
          (Return (), emit [StderrWrite (unable_to_cancel jid (str e @ newline))] s1)
      | (Malformed e, s1) \<Rightarrow>
          (Return (), emit [StderrWrite (unable_to_cancel jid (str e @ newline))] s1)
      | (Result status repr_result, s1) \<Rightarrow>
          if status \<noteq> Some ''SUCCESS''
          then (Return (), emit [StderrWrite (unable_to_cancel jid repr_result)] s1)
          else (Return (), s1))"

text \<open>
  \<^verbatim>\<open>submit_retry_task\<close>: no \<^verbatim>\<open>try\<close> stands around the request, so what \<^verbatim>\<open>urlopen\<close> or
  \<^verbatim>\<open>json.loads\<close> raise leaves the function, and the retry id is then not put into the
  cache. The data handed to \<^verbatim>\<open>urlopen\<close> is the \<^verbatim>\<open>str\<close> that \<^verbatim>\<open>urlencode\<close> returned.
\<close>

definition submit_retry_task :: "world \<Rightarrow> task \<Rightarrow> slave \<Rightarrow> unit outcome \<times> slave" where
  "submit_retry_task w t s =
     (let task_json = to_json t;
          form_data = urlencode w task_json;
          url = retry_task_url s
      in
      case urlopen w url (Some form_data) s of
        (Raises e, s1) \<Rightarrow> (Raise e, s1)
      | (Malformed e, s1) \<Rightarrow> (Raise e, s1)
      | (Result status repr_result, s1) \<Rightarrow>
          let s2 = (if status \<noteq> Some ''SUCCESS''
                    then emit [StderrWrite (unable_to_submit repr_result)] s1
                    else s1)
          in (case put (retry_cache s2) (retry_id t) of
                Inl e \<Rightarrow> (Raise e, s2)
              | Inr c \<Rightarrow> (Return (), s2\<lparr>retry_cache := c\<rparr>)))"

subsection \<open>run_task\<close>

text \<open>
  The command line and working directory built from the manifest (the branch
  \<^verbatim>\<open>if downloaded:\<close> up to the call of \<^verbatim>\<open>ensure_command_has_abs_path\<close>). An empty
  \<^verbatim>\<open>docker_image\<close> is false in Python, like \<^verbatim>\<open>None\<close>.
\<close>

definition build_command ::
  "world \<Rightarrow> task \<Rightarrow> string \<Rightarrow> manifest option \<Rightarrow> error + string list \<times> string option" where
  "build_command w t test_dir isolated_info =
     (case isolated_info of
        None \<Rightarrow> Inl (AttributeError ''get'')
      | Some info \<Rightarrow>
          let rel_cwd = (case relative_cwd info of None \<Rightarrow> [] | Some d \<Rightarrow> d) in
          (case command info of
             None \<Rightarrow> Inl (KeyError ''command'')
           | Some argv \<Rightarrow>
               (case docker_image t of
                  None \<Rightarrow>
                    let cwd = Some (join test_dir rel_cwd)
                    in Inr (ensure_command_has_abs_path w argv cwd, cwd)
                | Some img \<Rightarrow>
                    if img \<noteq> []
                    then
                      let cmd = [''docker'', ''run'',
                                 ''--volume'', test_dir @ '':/isolate-dir'',
                                 ''--workdir'', join ''/isolate-dir'' rel_cwd,
                                 ''--user'', show_nat (geteuid w),
                                 img] @ argv
                      in Inr (ensure_command_has_abs_path w cmd None, None)
                    else
                      let cwd = Some (join test_dir rel_cwd)
                      in Inr (ensure_command_has_abs_path w argv cwd, cwd))))"

text \<open>
  The end of \<^verbatim>\<open>run_task\<close>, from \<^verbatim>\<open>end_time = time.time()\<close> on: the report to the results
  store, the cleanup, and the policy after a failure.
\<close>

definition finish_task ::
  "world \<Rightarrow> task \<Rightarrow> string \<Rightarrow> int \<Rightarrow> string option \<Rightarrow> string option \<Rightarrow> archive option
     \<Rightarrow> slave \<Rightarrow> unit outcome \<times> slave" where
  "finish_task w t test_dir rc out err artifact_archive s =
     (let duration_secs = time_end w - time_start w;
          s1 = emit [MarkTaskFinished rc out err artifact_archive duration_secs] s;
          s2 = emit [Rmtree test_dir] s1
      in
      if rc \<noteq> 0
      then
        let s3 = emit [CountNumFailedTasks] s2;
            num_failed = count_num_failed_tasks w
        in
        if num_failed > 100 then cancel_job w (job_id t) s3
        else if attempt t < max_retries t then submit_retry_task w t s3
        else (Return (), s3)
      else (Return (), s2))"

text \<open>
  The branch \<^verbatim>\<open>if downloaded:\<close> and what follows it: the command is built and run, the
  output of a command that returned 0 is dropped, the archive is made, and the task is
  finished. The calls of \<^verbatim>\<open>run_command_and_touch_task\<close> and of \<^verbatim>\<open>make_archive\<close> stand
  outside every \<^verbatim>\<open>try\<close>: what they raise leaves \<^verbatim>\<open>run_task\<close> before the report.
\<close>

definition run_downloaded ::
  "world \<Rightarrow> task \<Rightarrow> string \<Rightarrow> manifest option \<Rightarrow> slave \<Rightarrow> unit outcome \<times> slave" where
  "run_downloaded w t test_dir isolated_info s =
     (case build_command w t test_dir isolated_info of
        Inl e \<Rightarrow> (Raise e, s)
      | Inr (cmd, cwd) \<Rightarrow>
          and_then (run_command_and_touch_task w cmd (timeout t) cwd s)
            (\<lambda>(rc, out, err) s3.
               let reported_stdout = (if rc = 0 then None else Some out);
                   reported_stderr = (if rc = 0 then None else Some err)
               in
               case make_archive (files w) t (Some test_dir) of
                 Inl e \<Rightarrow> (Raise e, s3)
               | Inr artifact_archive \<Rightarrow>
                   finish_task w t test_dir rc reported_stdout reported_stderr
                     artifact_archive s3))"

definition run_task :: "world \<Rightarrow> task \<Rightarrow> slave \<Rightarrow> unit outcome \<times> slave" where
  "run_task w t s =
     (let s0 = emit [MarkTaskRunning] s in
      if \<not> mark_task_running w then (Return (), s0)
      else
        let test_dir = make_temp_dir w;
            s1 = emit [MakeTempDir test_dir] s0
        in
        case download_task_files_with_retries w t test_dir s1 of
          (Hang, s2) \<Rightarrow> (Hang, s2)
        | (Raise e, s2) \<Rightarrow> finish_task w t test_dir (- 2) None (Some (str e)) None s2
        | (Return isolated_info, s2) \<Rightarrow> run_downloaded w t test_dir isolated_info s2)"

subsection \<open>The main loop\<close>

text \<open>
  One pass of \<^verbatim>\<open>while True\<close> in \<^verbatim>\<open>Slave.run\<close>. \<open>Return ()\<close> means that the pass ended and
  the loop goes on; \<open>Raise e\<close> that the exception leaves \<^verbatim>\<open>run\<close>, since the call of
  \<^verbatim>\<open>run_task\<close> stands outside every \<^verbatim>\<open>try\<close>. A failure of \<^verbatim>\<open>bs_elem.delete()\<close> is
  caught and logged.
\<close>

definition run_pass :: "world \<Rightarrow> slave \<Rightarrow> unit outcome \<times> slave" where
  "run_pass w s =
     (let s0 = emit [ReserveTask] (s\<lparr>is_busy := False\<rparr>) in
      case reserve_task w of
        Inl e \<Rightarrow> (Return (), emit [Sleep 1] s0)
      | Inr t \<Rightarrow>
          let s1 = s0\<lparr>cur_task := Some t\<rparr>;
              (found, c) = get (retry_cache s1) (retry_id t);
              s2 = s1\<lparr>retry_cache := c\<rparr>
          in
          if found \<noteq> None then (Return (), emit [Release, Sleep 5] s2)
          else
            and_then (run_task w t (s2\<lparr>is_busy := True\<rparr>))
              (\<lambda>_ s3. (Return (), (emit [Delete] s3)\<lparr>cur_task := None\<rparr>)))"

text \<open>
  The loop over the passes whose surroundings are given; \<open>Return ()\<close> when all of them
  ended and the loop is still going.
\<close>

fun run :: "world list \<Rightarrow> slave \<Rightarrow> unit outcome \<times> slave" where
  "run [] s = (Return (), s)"
| "run (w # ws) s =
     (case run_pass w s of
        (Return _, s') \<Rightarrow> run ws s'
      | (Raise e, s') \<Rightarrow> (Raise e, s')
      | (Hang, s') \<Rightarrow> (Hang, s'))"

subsection \<open>Containment in the work directory\<close>

text \<open>
  A path lies within a directory when it is the directory or continues it after a
  separator. This is the containment the specification speaks of; the code tests
  \<^verbatim>\<open>canonical.startswith(test_dir)\<close> instead.
\<close>

definition lies_within :: "string \<Rightarrow> string \<Rightarrow> bool" where
  "lies_within dir p = (p = dir \<or> prefix (dir @ ''/'') p)"

subsection \<open>Children that end\<close>

text \<open>
  The passes given bring the loop to its end, and the function to its return or to an
  exception: a pass in which a pipe is readable (the read raises), or in which
  \<^verbatim>\<open>poll()\<close> sees the child gone, or in which \<^verbatim>\<open>xlist\<close> is not empty and \<^verbatim>\<open>p.wait()\<close>
  returns.
\<close>

fun ends_within :: "observation list \<Rightarrow> int option \<Rightarrow> bool" where
  "ends_within [] wt = False"
| "ends_within (ob # obs) wt =
     (if read_stdout ob \<noteq> None \<or> read_stderr ob \<noteq> None \<or> poll ob \<noteq> None then True
      else if xlist ob then wt \<noteq> None
      else ends_within obs wt)"

text \<open>A call of \<^verbatim>\<open>Popen\<close> that raises, or a child that ends.\<close>

definition child_ends :: "error + process \<Rightarrow> bool" where
  "child_ends c = (case c of Inl e \<Rightarrow> True | Inr p \<Rightarrow> ends_within (wakeups p) (wait p))"

subsection \<open>Shapes of traces\<close>

text \<open>What the runner itself sends while it supervises a child.\<close>

definition supervision_event :: "event \<Rightarrow> bool" where
  "supervision_event e = (e = Terminate \<or> e = Kill \<or> e = Touch)"

text \<open>
  The events of one call of \<^verbatim>\<open>download_task_files\<close>: the first download command is
  started, and after it come only events of its supervision, the start of the second
  download command and its supervision, and the call of \<^verbatim>\<open>make_tree_writeable\<close>.
\<close>

definition attempt_events :: "slave \<Rightarrow> task \<Rightarrow> string \<Rightarrow> event list \<Rightarrow> bool" where
  "attempt_events s t test_dir a =
     (case a of
        [] \<Rightarrow> False
      | e # rest \<Rightarrow>
          e = Popen (download_cmd_files s t test_dir) None
          \<and> list_all (\<lambda>e. supervision_event e
                           \<or> e = Popen (download_cmd_isolated s t test_dir) None
                           \<or> e = MakeTreeWriteable test_dir) rest)"

text \<open>The events that can follow the report to the results store.\<close>

fun after_report :: "event \<Rightarrow> bool" where
  "after_report CountNumFailedTasks = True"
| "after_report (Urlopen url data) = True"
| "after_report (StderrWrite m) = True"
| "after_report e = False"

text \<open>
  \<open>grows s s' evs\<close>: the worker \<open>s'\<close> is \<open>s\<close> after the events \<open>evs\<close> and the start of
  some children, with nothing else changed.
\<close>

definition grows :: "slave \<Rightarrow> slave \<Rightarrow> event list \<Rightarrow> bool" where
  "grows s s' evs = (s' = s\<lparr>spawned := spawned s', trace := trace s @ evs\<rparr>)"

text \<open>The events that can come before the report to the results store.\<close>

fun before_report :: "event \<Rightarrow> bool" where
  "before_report (Popen cmd cwd) = True"
| "before_report Terminate = True"
| "before_report Kill = True"
| "before_report Touch = True"
| "before_report MarkTaskRunning = True"
| "before_report (MakeTempDir d) = True"
| "before_report (Rmtree d) = True"
| "before_report (Makedirs d) = True"
| "before_report (MakeTreeWriteable d) = True"
| "before_report (Sleep n) = True"
| "before_report e = False"

text \<open>A write to \<^verbatim>\<open>sys.stderr\<close>.\<close>

fun stderr_write :: "event \<Rightarrow> bool" where
  "stderr_write (StderrWrite m) = True"
| "stderr_write e = False"

subsection \<open>Example tasks, files, children, masters and workers\<close>

text \<open>A task that asks for the archive of \<^verbatim>\<open>*.log\<close> and may be retried twice.\<close>

definition log_task :: task where
  "log_task =
     \<lparr>task_id = ''job1.7'', job_id = ''job1'', retry_id = ''job1.7'',
      description = ''a test'', isolate_hash = ''abc'', docker_image = None,
      timeout = 30, attempt = 0, max_retries = 2,
      artifact_archive_globs = Some [''*.log''], to_json = ''{}''\<rparr>"

text \<open>
  The work directory \<^verbatim>\<open>/cache.0/dist-test-task1\<close> holds \<^verbatim>\<open>out.log\<close>, a symbolic link to a
  file of ten bytes in the neighbouring directory \<^verbatim>\<open>/cache.0/dist-test-task10\<close>.
\<close>

definition escape_fs :: filesystem where
  "escape_fs =
     \<lparr>iglob = (\<lambda>pat. if pat = ''/cache.0/dist-test-task1/*.log''
                     then [''/cache.0/dist-test-task1/out.log''] else []),
      realpath = (\<lambda>p. if p = ''/cache.0/dist-test-task1/out.log''
                       then ''/cache.0/dist-test-task10/secret.log'' else p),
      st_size = (\<lambda>p. Inr 10),
      relpath = (\<lambda>p start. ''../dist-test-task10/secret.log'')\<rparr>"

text \<open>
  The same link, to the file \<^verbatim>\<open>/etc/passwd\<close>: its canonical path does not start with the
  name of the work directory.
\<close>

definition far_fs :: filesystem where
  "far_fs =
     \<lparr>iglob = (\<lambda>pat. if pat = ''/cache.0/dist-test-task1/*.log''
                     then [''/cache.0/dist-test-task1/out.log''] else []),
      realpath = (\<lambda>p. if p = ''/cache.0/dist-test-task1/out.log''
                       then ''/etc/passwd'' else p),
      st_size = (\<lambda>p. Inr 10),
      relpath = (\<lambda>p start. ''../../etc/passwd'')\<rparr>"

text \<open>A work directory in which no file matches.\<close>

definition empty_fs :: filesystem where
  "empty_fs =
     \<lparr>iglob = (\<lambda>pat. []), realpath = (\<lambda>p. p), st_size = (\<lambda>p. Inr 0),
      relpath = (\<lambda>p start. p)\<rparr>"

text \<open>
  The work directory \<^verbatim>\<open>/cache.0/dist-test-task1\<close> holds the regular file \<^verbatim>\<open>out.log\<close> of
  the size given.
\<close>

definition one_log_fs :: "nat \<Rightarrow> filesystem" where
  "one_log_fs n =
     \<lparr>iglob = (\<lambda>pat. if pat = ''/cache.0/dist-test-task1/*.log''
                     then [''/cache.0/dist-test-task1/out.log''] else []),
      realpath = (\<lambda>p. p),
      st_size = (\<lambda>p. Inr n),
      relpath = (\<lambda>p start. ''out.log'')\<rparr>"

text \<open>
  A pass of the loop in which \<^verbatim>\<open>select\<close> has waited its two seconds and found nothing
  to read, and the child is alive; the three clock readings are \<open>c\<close>.
\<close>

definition idle :: "real \<Rightarrow> observation" where
  "idle c =
     \<lparr>read_stdout = None, read_stderr = None, xlist = False, poll = None,
      now = c, now_touch = c, now_touched = c\<rparr>"

text \<open>
  A pass in which the child has written \<open>x\<close> to its standard output and is alive.
\<close>

definition wrote :: "string \<Rightarrow> real \<Rightarrow> observation" where
  "wrote x c =
     \<lparr>read_stdout = Some x, read_stderr = None, xlist = False, poll = None,
      now = c, now_touch = c, now_touched = c\<rparr>"


text \<open>
  A pass in which the child has exited with \<open>rc\<close> and its pipes are at their end: both
  are readable, and the reads give the empty \<^verbatim>\<open>bytes\<close>.
\<close>

definition closed :: "int \<Rightarrow> real \<Rightarrow> observation" where
  "closed rc c =
     \<lparr>read_stdout = Some [], read_stderr = Some [], xlist = False, poll = Some rc,
      now = c, now_touch = c, now_touched = c\<rparr>"

text \<open>
  A child started at the clock 100 that writes nothing and ignores \<^verbatim>\<open>SIGTERM\<close>. The
  runner wakes at 102, 104, 106 and 108; after the \<^verbatim>\<open>SIGKILL\<close> the child is gone and
  its pipes are at their end.
\<close>

definition silent :: process where
  "silent =
     \<lparr>started = 100,
      wakeups = [idle 102, idle 104, idle 106, idle 108, closed (- 9) 108],
      wait = Some (- 9)\<rparr>"

text \<open>
  A child started at the clock 100 that writes nothing for three seconds, then writes
  \<^verbatim>\<open>tick\<close> and runs on without end. The runner wakes at 102 and, for the output, at 103;
  the child is there to be seen alive at 105, 107 and 109.
\<close>

definition chatty :: process where
  "chatty =
     \<lparr>started = 100,
      wakeups = [idle 102, wrote ''tick'' 103, idle 105, idle 107, idle 109],
      wait = None\<rparr>"

text \<open>
  A download command started at the clock \<open>c\<close>: it writes its log lines at once (it is
  called with \<^verbatim>\<open>--verbose\<close>).
\<close>

definition verbose :: "real \<Rightarrow> process" where
  "verbose c =
     \<lparr>started = c,
      wakeups = [wrote ''Downloading...'' c],
      wait = Some 0\<rparr>"


text \<open>
  Surroundings in which the task \<open>log_task\<close> is reserved and accepted, the children are
  \<open>ps\<close>, the work directory holds \<open>fs\<close>, the clock is 0 when \<^verbatim>\<open>run_task\<close> starts and \<open>fin\<close>
  when it reports, the results store counts \<open>failed\<close> failed tasks in the job, and the
  master answers every request with \<open>answer\<close>.
\<close>

definition test_world ::
  "(nat \<Rightarrow> error + process) \<Rightarrow> filesystem \<Rightarrow> real \<Rightarrow> int \<Rightarrow> reply \<Rightarrow> world" where
  "test_world ps fs fin failed answer =
     \<lparr>reserve_task = Inr log_task,
      mark_task_running = True,
      make_temp_dir = ''/cache.0/dist-test-task1'',
      time_start = 0,
      time_end = fin,
      procs = ps,
      ensure_command_has_abs_path = (\<lambda>cmd cwd. cmd),
      geteuid = 1000,
      files = fs,
      count_num_failed_tasks = failed,
      master = (\<lambda>url. answer),
      urlencode = (\<lambda>json. ''task_json='' @ json)\<rparr>"

text \<open>The master accepts, and the master cannot be reached.\<close>

definition accepted :: reply where
  "accepted = Result (Some ''SUCCESS'') ''{'status': 'SUCCESS'}''"

definition refused :: reply where
  "refused = Raises (URLError ''<urlopen error [Errno 111] Connection refused>'')"

text \<open>
  The example surroundings when every download command writes its log lines at once
  (the three attempts start at the clocks 0, 5 and 10, and the report is made at 11) and
  the work directory holds one log file of ten bytes.
\<close>

definition verbose_world :: "int \<Rightarrow> reply \<Rightarrow> world" where
  "verbose_world failed answer =
     test_world (\<lambda>n. Inr (verbose (5 * real n))) (one_log_fs 10) 11 failed answer"


text \<open>
  A worker with its configuration, the cache directory it has locked, an empty retry
  cache as \<^verbatim>\<open>RetryCache()\<close> creates it, and no task.
\<close>

definition worker0 :: slave where
  "worker0 =
     \<lparr>ISOLATE_HOME = ''/opt/isolate'', ISOLATE_SERVER = ''http://isolate'',
      DIST_TEST_MASTER = ''http://master'', cache_dir = ''/cache.0'',
      cur_task = None, is_busy = False,
      retry_cache = RetryCache_default, spawned = 0, trace = []\<rparr>"

text \<open>
  The events of \<^verbatim>\<open>run_task\<close> for \<open>log_task\<close> when every download command writes its log
  lines at once, up to the removal of the work directory.
\<close>

definition failed_download_events :: "slave \<Rightarrow> task \<Rightarrow> event list" where
  "failed_download_events s t =
     [MarkTaskRunning, MakeTempDir ''/cache.0/dist-test-task1'',
      Popen (download_cmd_files s t ''/cache.0/dist-test-task1'') None,
      Rmtree ''/cache.0/dist-test-task1'', Makedirs ''/cache.0/dist-test-task1'', Sleep 5,
      Popen (download_cmd_files s t ''/cache.0/dist-test-task1'') None,
      Rmtree ''/cache.0/dist-test-task1'', Makedirs ''/cache.0/dist-test-task1'', Sleep 5,
      Popen (download_cmd_files s t ''/cache.0/dist-test-task1'') None,
      MarkTaskFinished (- 2) None (Some concat_bytes_message) None 11,
      Rmtree ''/cache.0/dist-test-task1'']"

section \<open>Properties\<close>

subsection \<open>The retry cache\<close>

lemma length_update_le: "length (AList.update k v al) \<le> Suc (length al)"
  by (induction al) auto

lemma length_update_present:
  "k \<in> fst ` set al \<Longrightarrow> length (AList.update k v al) = length al"
  by (induction al) auto

lemma update_fresh: "k \<notin> fst ` set al \<Longrightarrow> AList.update k v al = al @ [(k, v)]"
  by (induction al) auto

lemma wf_butlast: "distinct (map fst al) \<Longrightarrow> distinct (map fst (butlast al))"
  by (simp add: map_butlast distinct_butlast)

text \<open>
  A full cache and an item that is not in it: \<^verbatim>\<open>put\<close> drops the pair at the end of the
  dictionary and appends the item.
\<close>

lemma put_full_fresh:
  assumes "int (length (cache c)) = max_size c" and "cache c \<noteq> []"
    and "item \<notin> fst ` set (cache c)"
  shows "put c item = Inr (c\<lparr>cache := butlast (cache c) @ [(item, 0)]\<rparr>)"
proof -
  have "item \<notin> fst ` set (butlast (cache c))"
    using assms(3) by (auto dest: in_set_butlastD)
  then have "AList.update item 0 (butlast (cache c)) = butlast (cache c) @ [(item, 0)]"
    by (rule update_fresh)
  with assms(1,2) show ?thesis by (simp add: put_def popitem_def)
qed

text \<open>
  C1, on the code. After \<^verbatim>\<open>put\<close> of a retry id into the cache the worker creates
  (\<^verbatim>\<open>max_count = 10\<close>), thirteen successive calls of \<^verbatim>\<open>get\<close> answer: twelve times the item
  (present), then \<^verbatim>\<open>None\<close>. The claim's bound of \<^verbatim>\<open>MAX_COUNT + 1 = 11\<close> calls is
  exceeded: the twelfth call still reports the entry present, because \<^verbatim>\<open>get\<close> compares
  the count it read before the increment with \<^verbatim>\<open>max_count\<close>; the eleventh call raises the
  count to 11 and evicts nothing.
\<close>

theorem get_present_twelve_times:
  "put (RetryCache_default :: string RetryCache) ''R'' =
      Inr \<lparr>cache = [(''R'', 0)], max_size = 100, max_count = 10\<rparr>
   \<and> fst (gets 13 \<lparr>cache = [(''R'', 0)], max_size = 100, max_count = 10\<rparr> ''R'')
      = replicate 12 (Some ''R'') @ [None]"
  by (simp add: put_def RetryCache_default_def RetryCache_init_def eval_nat_numeral get_def)

text \<open>
  C2, on the code. A cache at capacity (\<^verbatim>\<open>max_size = 100\<close>) holding the items
  \<open>0, \<dots>, 99\<close> in the order of their insertion: \<^verbatim>\<open>put\<close> of the new item \<open>100\<close> keeps the
  oldest items \<open>0, \<dots>, 98\<close> and evicts \<open>99\<close>, the one inserted last, since
  \<^verbatim>\<open>OrderedDict.popitem()\<close> is called with its default \<^verbatim>\<open>last=True\<close>. The claim asks for
  the eviction of the oldest item, \<open>0\<close>.
\<close>

theorem put_at_capacity_evicts_newest:
  "put \<lparr>cache = map (\<lambda>i. (i, 0)) [0..<100], max_size = 100, max_count = 10\<rparr> (100::nat)
     = Inr \<lparr>cache = map (\<lambda>i. (i, 0)) [0..<99] @ [(100, 0)], max_size = 100, max_count = 10\<rparr>"
proof -
  let ?c = "\<lparr>cache = map (\<lambda>i. (i, 0::int)) [0..<100::nat], max_size = 100, max_count = 10\<rparr>"
  have "put ?c 100 = Inr (?c\<lparr>cache := butlast (cache ?c) @ [(100, 0)]\<rparr>)"
    by (rule put_full_fresh) auto
  moreover have "[0..<100::nat] = [0..<99] @ [99]"
    using upt_Suc_append [of 0 99] by simp
  ultimately show ?thesis by (simp add: map_butlast)
qed

text \<open>
  C10. \<^verbatim>\<open>put\<close> of an item that is already in the cache returns without raising, leaves
  one entry for the item (the keys stay distinct), does not make the cache longer, and
  leaves the item's count at 0.
\<close>

theorem put_present_resets:
  assumes wf: "wf_cache c" and present: "item \<in> fst ` set (cache c)"
  shows "\<exists>c'. put c item = Inr c' \<and> wf_cache c'
            \<and> length (cache c') \<le> length (cache c)
            \<and> map_of (cache c') item = Some 0"
proof (cases "int (length (cache c)) = max_size c")
  case True
  from present have ne: "cache c \<noteq> []" by auto
  let ?d = "butlast (cache c)"
  have put_eq: "put c item = Inr (c\<lparr>cache := AList.update item 0 ?d\<rparr>)"
    using True ne by (simp add: put_def popitem_def)
  have "length (AList.update item 0 ?d) \<le> Suc (length ?d)"
    by (rule length_update_le)
  also have "\<dots> = length (cache c)" using ne by simp
  finally have len: "length (AList.update item 0 ?d) \<le> length (cache c)" .
  have "distinct (map fst (AList.update item 0 ?d))"
    using wf by (simp add: wf_cache_def wf_butlast distinct_update)
  with put_eq len show ?thesis
    by (simp add: wf_cache_def update_conv')
next
  case False
  have put_eq: "put c item = Inr (c\<lparr>cache := AList.update item 0 (cache c)\<rparr>)"
    using False by (simp add: put_def)
  moreover have "length (AList.update item 0 (cache c)) = length (cache c)"
    using present by (rule length_update_present)
  moreover have "distinct (map fst (AList.update item 0 (cache c)))"
    using wf by (simp add: wf_cache_def distinct_update)
  ultimately show ?thesis
    by (simp add: wf_cache_def update_conv')
qed

theorem put_present_resets_witness:
  "wf_cache \<lparr>cache = [(''a'', 4), (''b'', 7)], max_size = 2, max_count = 10\<rparr>
   \<and> ''b'' \<in> fst ` set (cache \<lparr>cache = [(''a'', 4), (''b'', 7)], max_size = 2, max_count = 10\<rparr>)
   \<and> put \<lparr>cache = [(''a'', 4), (''b'', 7)], max_size = 2, max_count = 10\<rparr> ''b''
       = Inr \<lparr>cache = [(''a'', 4), (''b'', 0)], max_size = 2, max_count = 10\<rparr>
   \<and> (\<exists>c'. put \<lparr>cache = [(''a'', 4), (''b'', 7)], max_size = 2, max_count = 10\<rparr> ''b'' = Inr c'
          \<and> wf_cache c'
          \<and> length (cache c')
              \<le> length (cache \<lparr>cache = [(''a'', 4), (''b'', 7)], max_size = 2, max_count = 10\<rparr>)
          \<and> map_of (cache c') ''b'' = Some 0)"
  using put_present_resets
          [of "\<lparr>cache = [(''a'', 4), (''b'', 7)], max_size = 2, max_count = 10\<rparr>" "''b''"]
  by (simp add: wf_cache_def put_def popitem_def)

subsection \<open>Traces of the runner and of the download\<close>

lemma grows_iff:
  "grows s s' evs \<longleftrightarrow>
     trace s' = trace s @ evs \<and> retry_cache s' = retry_cache s
     \<and> DIST_TEST_MASTER s' = DIST_TEST_MASTER s \<and> ISOLATE_HOME s' = ISOLATE_HOME s
     \<and> ISOLATE_SERVER s' = ISOLATE_SERVER s \<and> cache_dir s' = cache_dir s
     \<and> cur_task s' = cur_task s \<and> is_busy s' = is_busy s"
  by (cases s; cases s') (auto simp: grows_def)

lemma grows_refl: "grows s s []"
  by (simp add: grows_iff)

lemma grows_emit: "grows s (emit evs s) evs"
  by (simp add: grows_iff emit_def)

lemma grows_trans: "grows s s1 a \<Longrightarrow> grows s1 s2 b \<Longrightarrow> grows s s2 (a @ b)"
  by (simp add: grows_iff)

lemma grows_trace: "grows s s' evs \<Longrightarrow> trace s' = trace s @ evs"
  by (simp add: grows_iff)

lemma emit_emit: "emit b (emit a s) = emit (a @ b) s"
  by (simp add: emit_def)

lemma trace_emit: "trace (emit evs s) = trace s @ evs"
  by (simp add: emit_def)

lemma emit_fields:
  "retry_cache (emit evs s) = retry_cache s" "DIST_TEST_MASTER (emit evs s) = DIST_TEST_MASTER s"
  "retry_task_url (emit evs s) = retry_task_url s"
  "cancel_job_url (emit evs s) jid = cancel_job_url s jid"
  "spawned (emit evs s) = spawned s"
  by (simp_all add: emit_def retry_task_url_def cancel_job_url_def)

lemma download_cmd_grows:
  assumes "grows s s' evs"
  shows "download_cmd_files s' t d = download_cmd_files s t d"
    and "download_cmd_isolated s' t d = download_cmd_isolated s t d"
  using assms
  by (simp_all add: grows_iff download_cmd_files_def download_cmd_isolated_def
      download_cmd_base_def)

lemma loop_body_sent:
  assumes "loop_body t_out ktt kkt ob r = Inr (b, r')" and "list_all supervision_event (sent r)"
  shows "list_all supervision_event (sent r')"
  using assms
  by (auto simp: loop_body_def Let_def supervision_event_def split: option.splits if_splits)

lemma supervise_sent:
  assumes "list_all supervision_event (sent r)"
  shows "list_all supervision_event (sent (snd (supervise t_out ktt kkt obs r)))"
  using assms
proof (induction obs arbitrary: r)
  case Nil
  then show ?case by simp
next
  case (Cons ob obs)
  show ?case
  proof (cases "loop_body t_out ktt kkt ob r")
    case (Inl e)
    with Cons.prems show ?thesis by simp
  next
    case (Inr br)
    obtain b r' where br: "br = (b, r')" by (cases br)
    have ok: "list_all supervision_event (sent r')"
      using loop_body_sent [OF Inr [unfolded br] Cons.prems] .
    show ?thesis
      using Inr br ok Cons.IH [of r'] by (cases b) simp_all
  qed
qed

lemma supervised_run_sent:
  "snd (supervised_run t_out p) =
     sent (snd (supervise t_out (started p + of_int t_out) (started p + of_int t_out + 5)
                  (wakeups p)
                  \<lparr>stdout = [], stderr = [], last_touch = started p, sent = []\<rparr>))"
  by (simp add: supervised_run_def Let_def split: prod.splits option.splits sum.splits)

lemma supervised_run_events: "list_all supervision_event (snd (supervised_run t_out p))"
  unfolding supervised_run_sent by (rule supervise_sent) simp

lemma run_command_grows:
  assumes "run_command_and_touch_task w cmd t_out cwd s = (out, s')"
  shows "\<exists>evs. grows s s' (Popen cmd cwd # evs) \<and> list_all supervision_event evs"
proof (cases "procs w (spawned s)")
  case (Inl e)
  with assms have "s' = emit [Popen cmd cwd] (s\<lparr>spawned := spawned s + 1\<rparr>)"
    by (simp add: run_command_and_touch_task_def Let_def)
  then have "grows s s' (Popen cmd cwd # [])"
    by (simp add: grows_iff emit_def)
  then show ?thesis by (intro exI [of _ "[]"]) simp
next
  case (Inr p)
  let ?evs = "snd (supervised_run t_out p)"
  from assms Inr
  have "s' = emit ?evs (emit [Popen cmd cwd] (s\<lparr>spawned := spawned s + 1\<rparr>))"
    by (auto simp: run_command_and_touch_task_def Let_def split: prod.splits)
  then have "grows s s' (Popen cmd cwd # ?evs)"
    by (simp add: grows_iff emit_def)
  then show ?thesis using supervised_run_events by blast
qed

text \<open>A child that ends is not waited for without end.\<close>

lemma supervise_ends:
  assumes "ends_within obs wt"
  shows "case supervise t_out ktt kkt obs r of
           (Inl e, r') \<Rightarrow> True
         | (Inr None, r') \<Rightarrow> False
         | (Inr (Some ob), r') \<Rightarrow> poll ob \<noteq> None \<or> wt \<noteq> None"
  using assms
proof (induction obs arbitrary: r)
  case Nil
  then show ?case by simp
next
  case (Cons ob obs)
  show ?case
  proof (cases "read_stdout ob \<noteq> None \<or> read_stderr ob \<noteq> None")
    case True
    then show ?thesis by (auto simp: loop_body_def split: option.splits)
  next
    case False
    then have quiet: "read_stdout ob = None" "read_stderr ob = None" by simp_all
    show ?thesis
    proof (cases "xlist ob \<or> poll ob \<noteq> None")
      case True
      then have "loop_body t_out ktt kkt ob r = Inr (True, r)"
        using quiet by (simp add: loop_body_def)
      with True Cons.prems quiet show ?thesis by (auto split: if_splits)
    next
      case False
      then obtain r' where "loop_body t_out ktt kkt ob r = Inr (False, r')"
        using quiet by (simp add: loop_body_def Let_def)
      moreover from False quiet Cons.prems have "ends_within obs wt" by simp
      ultimately show ?thesis using Cons.IH [of r'] by simp
    qed
  qed
qed

lemma supervised_run_ends:
  assumes "ends_within (wakeups p) (wait p)"
  shows "fst (supervised_run t_out p) \<noteq> Hang"
  using supervise_ends [OF assms, of t_out "started p + of_int t_out"
      "started p + of_int t_out + 5"
      "\<lparr>stdout = [], stderr = [], last_touch = started p, sent = []\<rparr>"]
  by (auto simp: supervised_run_def Let_def split: prod.splits sum.splits option.splits)

lemma run_command_ends:
  assumes "child_ends (procs w (spawned s))"
  shows "fst (run_command_and_touch_task w cmd t_out cwd s) \<noteq> Hang"
proof (cases "procs w (spawned s)")
  case (Inl e)
  then show ?thesis by (simp add: run_command_and_touch_task_def Let_def)
next
  case (Inr p)
  with assms have "ends_within (wakeups p) (wait p)" by (simp add: child_ends_def)
  from supervised_run_ends [OF this, of t_out] Inr show ?thesis
    by (cases "supervised_run t_out p") (simp add: run_command_and_touch_task_def Let_def)
qed

text \<open>
  \<^verbatim>\<open>download_task_files\<close> never returns a manifest: it raises or waits without end.
\<close>

lemma download_task_files_never_returns: "download_task_files w t d s \<noteq> (Return m, s')"
  by (auto simp: download_task_files_def and_then_def Let_def
      split: prod.splits outcome.splits if_splits)

lemma download_task_files_grows:
  assumes "download_task_files w t d s = (out, s')"
  shows "\<exists>a. grows s s' a \<and> attempt_events s t d a"
proof -
  obtain o1 s1 where r1:
    "run_command_and_touch_task w (download_cmd_files s t d) 600 None s = (o1, s1)"
    by (cases "run_command_and_touch_task w (download_cmd_files s t d) 600 None s")
  then obtain ev1 where g1: "grows s s1 (Popen (download_cmd_files s t d) None # ev1)"
    and e1: "list_all supervision_event ev1"
    using run_command_grows by blast
  have done1: ?thesis if "s' = s1"
    using that g1 e1
    by (auto simp: attempt_events_def list_all_iff
        intro!: exI [of _ "Popen (download_cmd_files s t d) None # ev1"])
  show ?thesis
  proof (cases o1)
    case Hang
    with assms r1 have "s' = s1" by (simp add: download_task_files_def and_then_def)
    then show ?thesis by (rule done1)
  next
    case (Raise e)
    with assms r1 have "s' = s1" by (simp add: download_task_files_def and_then_def)
    then show ?thesis by (rule done1)
  next
    case (Return res1)
    obtain rc1 out1 err1 where res1: "res1 = (rc1, out1, err1)" by (cases res1)
    show ?thesis
    proof (cases "rc1 = 0")
      case False
      with assms r1 Return res1 have "s' = s1"
        by (simp add: download_task_files_def and_then_def)
      then show ?thesis by (rule done1)
    next
      case True
      obtain o2 s2 where r2:
        "run_command_and_touch_task w (download_cmd_isolated s t d) 600 None s1 = (o2, s2)"
        by (cases "run_command_and_touch_task w (download_cmd_isolated s t d) 600 None s1")
      then obtain ev2 where g2: "grows s1 s2 (Popen (download_cmd_isolated s t d) None # ev2)"
        and e2: "list_all supervision_event ev2"
        using run_command_grows by blast
      from assms r1 Return res1 True r2
      have "s' = s2 \<or> s' = emit [MakeTreeWriteable d] s2"
        by (auto simp: download_task_files_def and_then_def Let_def
            split: outcome.splits prod.splits if_splits)
      then have "grows s2 s' [] \<or> grows s2 s' [MakeTreeWriteable d]"
        using grows_refl grows_emit by auto
      then obtain ws where g3: "grows s2 s' ws"
        and e3: "list_all (\<lambda>e. e = MakeTreeWriteable d) ws"
        by auto
      let ?a = "(Popen (download_cmd_files s t d) None # ev1)
                  @ (Popen (download_cmd_isolated s t d) None # ev2) @ ws"
      have "grows s s' ?a"
        using g1 g2 g3 by (blast intro: grows_trans)
      moreover have "attempt_events s t d ?a"
        using e1 e2 e3 by (auto simp: attempt_events_def list_all_iff)
      ultimately show ?thesis by blast
    qed
  qed
qed

lemma download_task_files_ends:
  assumes "\<forall>n. child_ends (procs w n)"
  shows "fst (download_task_files w t d s) \<noteq> Hang"
proof -
  obtain o1 s1 where r1:
    "run_command_and_touch_task w (download_cmd_files s t d) 600 None s = (o1, s1)"
    by (cases "run_command_and_touch_task w (download_cmd_files s t d) 600 None s")
  have h1: "o1 \<noteq> Hang"
    using run_command_ends [of w s "download_cmd_files s t d" 600 None] assms r1 by simp
  obtain o2 s2 where r2:
    "run_command_and_touch_task w (download_cmd_isolated s t d) 600 None s1 = (o2, s2)"
    by (cases "run_command_and_touch_task w (download_cmd_isolated s t d) 600 None s1")
  have h2: "o2 \<noteq> Hang"
    using run_command_ends [of w s1 "download_cmd_isolated s t d" 600 None] assms r2 by simp
  show ?thesis
    using r1 r2 h1 h2
    by (cases o1; cases o2)
       (auto simp: download_task_files_def and_then_def Let_def split: prod.splits)
qed

lemma attempt_events_grows:
  "grows s s1 evs \<Longrightarrow> attempt_events s1 t d = attempt_events s t d"
proof (rule ext)
  fix a
  assume "grows s s1 evs"
  then show "attempt_events s1 t d a = attempt_events s t d a"
    using download_cmd_grows [of s s1 evs t d] by (cases a) (simp_all add: attempt_events_def)
qed

lemma download_task_files_cases:
  obtains (Raise) e s1 where "download_task_files w t d s = (Raise e, s1)"
  | (Hang) s1 where "download_task_files w t d s = (Hang, s1)"
proof (cases "download_task_files w t d s")
  case (Pair out s1)
  then show thesis
    using download_task_files_never_returns [of w t d s] Raise Hang by (cases out) auto
qed

lemma supervision_before_report: "supervision_event e \<Longrightarrow> before_report e"
  by (cases e) (simp_all add: supervision_event_def)

lemma attempt_before_report:
  assumes "attempt_events s t d a"
  shows "list_all before_report a"
proof (cases a)
  case Nil
  with assms show ?thesis by (simp add: attempt_events_def)
next
  case (Cons e rest)
  with assms have e: "e = Popen (download_cmd_files s t d) None"
    and rest: "list_all (\<lambda>e. supervision_event e
                           \<or> e = Popen (download_cmd_isolated s t d) None
                           \<or> e = MakeTreeWriteable d) rest"
    by (simp_all add: attempt_events_def)
  have "before_report x" if "x \<in> set rest" for x
  proof -
    from rest that have "supervision_event x \<or> x = Popen (download_cmd_isolated s t d) None
        \<or> x = MakeTreeWriteable d"
      by (simp add: list_all_iff)
    then show ?thesis using supervision_before_report by fastforce
  qed
  then have "list_all before_report rest" by (simp add: list_all_iff)
  with e Cons show ?thesis by simp
qed

text \<open>
  \<^verbatim>\<open>download_task_files_with_retries\<close>: it never returns a manifest. When it raises,
  three attempts were made, with the removal and the making of the work directory and
  the sleep between them, and what it raises is what the third attempt raised. When no
  child is waited for without end, it raises.
\<close>

lemma with_retries_shape:
  assumes "download_task_files_with_retries w t d s = (out, s')"
  shows "(\<forall>m. out \<noteq> Return m)
    \<and> (\<exists>pre. grows s s' pre \<and> list_all before_report pre)
    \<and> (\<forall>e. out = Raise e \<longrightarrow>
          (\<exists>a1 a2 a3 s3.
              attempt_events s t d a1 \<and> attempt_events s t d a2 \<and> attempt_events s t d a3
            \<and> grows s s3 (a1 @ [Rmtree d, Makedirs d, Sleep 5]
                          @ a2 @ [Rmtree d, Makedirs d, Sleep 5])
            \<and> download_task_files w t d s3 = (Raise e, s')
            \<and> grows s3 s' a3))
    \<and> ((\<forall>n. child_ends (procs w n)) \<longrightarrow> out \<noteq> Hang)"
proof -
  let ?sep = "[Rmtree d, Makedirs d, Sleep 5]"
  have rems: "rev [0..<NUM_DOWNLOAD_ATTEMPTS_PER_TASK] = [Suc (Suc 0), Suc 0, 0]"
    by (simp add: NUM_DOWNLOAD_ATTEMPTS_PER_TASK_def upt_rec numeral_3_eq_3)
  from assms have loop: "download_loop w t d [Suc (Suc 0), Suc 0, 0] s = (out, s')"
    by (simp add: download_task_files_with_retries_def rems)
  have sepb: "list_all before_report ?sep" by simp
  have hangs: "\<not> (\<forall>n. child_ends (procs w n))"
    if "download_task_files w t d sx = (Hang, sy)" for sx sy
    using download_task_files_ends [of w t d sx] that by auto
  show ?thesis
  proof (cases rule: download_task_files_cases [of w t d s])
    case (Hang s1)
    from download_task_files_grows [OF Hang] obtain a1
      where g1: "grows s s1 a1" and a1: "attempt_events s t d a1" by blast
    from loop Hang have res: "out = Hang" "s' = s1" by simp_all
    have "list_all before_report a1" using a1 by (rule attempt_before_report)
    with g1 res hangs [OF Hang] show ?thesis by auto
  next
    case (Raise e1 s1)
    from download_task_files_grows [OF Raise] obtain a1
      where g1: "grows s s1 a1" and a1: "attempt_events s t d a1" by blast
    let ?s1 = "emit ?sep s1"
    have gs1: "grows s ?s1 (a1 @ ?sep)"
      using g1 grows_emit by (blast intro: grows_trans)
    have b1: "list_all before_report (a1 @ ?sep)"
      using attempt_before_report [OF a1] by simp
    from loop Raise have loop2: "download_loop w t d [Suc 0, 0] ?s1 = (out, s')"
      by simp
    show ?thesis
    proof (cases rule: download_task_files_cases [of w t d ?s1])
      case (Hang s2)
      from download_task_files_grows [OF Hang] obtain a2
        where g2: "grows ?s1 s2 a2" and a2: "attempt_events ?s1 t d a2" by blast
      from loop2 Hang have res: "out = Hang" "s' = s2" by simp_all
      have "grows s s' ((a1 @ ?sep) @ a2)"
        using gs1 g2 res by (blast intro: grows_trans)
      moreover have "list_all before_report ((a1 @ ?sep) @ a2)"
        using b1 attempt_before_report [OF a2] by simp
      ultimately show ?thesis using res hangs [OF Hang] by blast
    next
      case (Raise e2 s2)
      from download_task_files_grows [OF Raise] obtain a2
        where g2: "grows ?s1 s2 a2" and a2': "attempt_events ?s1 t d a2" by blast
      have a2: "attempt_events s t d a2"
        using a2' by (simp add: attempt_events_grows [OF gs1])
      let ?s2 = "emit ?sep s2"
      have gs2: "grows s ?s2 ((a1 @ ?sep) @ a2 @ ?sep)"
        using gs1 g2 grows_emit by (blast intro: grows_trans)
      have b2: "list_all before_report ((a1 @ ?sep) @ a2 @ ?sep)"
        using b1 attempt_before_report [OF a2] by simp
      from loop2 Raise have loop3: "download_loop w t d [0] ?s2 = (out, s')"
        by simp
      show ?thesis
      proof (cases rule: download_task_files_cases [of w t d ?s2])
        case (Hang s3)
        from download_task_files_grows [OF Hang] obtain a3
          where g3: "grows ?s2 s3 a3" and a3: "attempt_events ?s2 t d a3" by blast
        from loop3 Hang have res: "out = Hang" "s' = s3" by simp_all
        have "grows s s' (((a1 @ ?sep) @ a2 @ ?sep) @ a3)"
          using gs2 g3 res by (blast intro: grows_trans)
        moreover have "list_all before_report (((a1 @ ?sep) @ a2 @ ?sep) @ a3)"
          using b2 attempt_before_report [OF a3] by simp
        ultimately show ?thesis using res hangs [OF Hang] by blast
      next
        case (Raise e3 s3)
        from download_task_files_grows [OF Raise] obtain a3
          where g3: "grows ?s2 s3 a3" and a3': "attempt_events ?s2 t d a3" by blast
        have a3: "attempt_events s t d a3"
          using a3' by (simp add: attempt_events_grows [OF gs2])
        from loop3 Raise have res: "out = Raise e3" "s' = s3" by simp_all
        have whole: "grows s s' (((a1 @ ?sep) @ a2 @ ?sep) @ a3)"
          using gs2 g3 res by (blast intro: grows_trans)
        have ball: "list_all before_report (((a1 @ ?sep) @ a2 @ ?sep) @ a3)"
          using b2 attempt_before_report [OF a3] by simp
        have shape: "\<exists>a1 a2 a3 s3.
              attempt_events s t d a1 \<and> attempt_events s t d a2 \<and> attempt_events s t d a3
            \<and> grows s s3 (a1 @ ?sep @ a2 @ ?sep)
            \<and> download_task_files w t d s3 = (Raise e3, s')
            \<and> grows s3 s' a3"
          using a1 a2 a3 gs2 Raise g3 res(2)
          by (intro exI [of _ a1] exI [of _ a2] exI [of _ a3] exI [of _ ?s2]) simp
        from whole ball have pre: "\<exists>pre. grows s s' pre \<and> list_all before_report pre"
          by blast
        show ?thesis
          using res(1) pre shape by simp
      qed
    qed
  qed
qed

subsection \<open>The report and what follows it\<close>

lemma stderr_write_after: "list_all stderr_write ws \<Longrightarrow> list_all after_report ws"
proof (induction ws)
  case Nil
  show ?case by simp
next
  case (Cons e ws)
  then show ?case by (cases e) simp_all
qed

lemma stderr_write_no_Urlopen: "list_all stderr_write ws \<Longrightarrow> Urlopen u data \<notin> set ws"
  by (induction ws) auto

text \<open>\<^verbatim>\<open>cancel_job\<close> never raises: it sends the request and at most writes to stderr.\<close>

lemma cancel_job_shape:
  "\<exists>ws. cancel_job w jid s = (Return (), emit (Urlopen (cancel_job_url s jid) None # ws) s)
        \<and> list_all stderr_write ws"
proof (cases "master w (cancel_job_url s jid)")
  case (Raises e)
  then show ?thesis
    by (intro exI [of _ "[StderrWrite (unable_to_cancel jid (str e @ newline))]"])
       (simp add: cancel_job_def urlopen_def Let_def emit_emit)
next
  case (Malformed e)
  then show ?thesis
    by (intro exI [of _ "[StderrWrite (unable_to_cancel jid (str e @ newline))]"])
       (simp add: cancel_job_def urlopen_def Let_def emit_emit)
next
  case (Result st rp)
  show ?thesis
  proof (cases "st = Some ''SUCCESS''")
    case True
    with Result show ?thesis
      by (intro exI [of _ "[]"]) (simp add: cancel_job_def urlopen_def Let_def emit_emit)
  next
    case False
    with Result show ?thesis
      by (intro exI [of _ "[StderrWrite (unable_to_cancel jid rp)]"])
         (simp add: cancel_job_def urlopen_def Let_def emit_emit)
  qed
qed

text \<open>
  \<^verbatim>\<open>submit_retry_task\<close> always raises the \<^verbatim>\<open>TypeError\<close> of \<^verbatim>\<open>urlopen\<close>: no request is sent,
  nothing is written, and the retry cache is not touched.
\<close>

lemma submit_retry_task_raises:
  "submit_retry_task w t s = (Raise (TypeError post_data_message), s)"
  by (simp add: submit_retry_task_def urlopen_def Let_def)

lemma finish_task_ok:
  "finish_task w t d 0 so se ar s =
     (Return (), emit [MarkTaskFinished 0 so se ar (time_end w - time_start w), Rmtree d] s)"
  by (simp add: finish_task_def Let_def emit_emit)

lemma finish_task_cancel:
  assumes "rc \<noteq> 0" and "count_num_failed_tasks w > 100"
  shows "finish_task w t d rc so se ar s =
     cancel_job w (job_id t)
       (emit [MarkTaskFinished rc so se ar (time_end w - time_start w), Rmtree d,
              CountNumFailedTasks] s)"
  using assms by (simp add: finish_task_def Let_def emit_emit)

lemma finish_task_retry:
  assumes "rc \<noteq> 0" and "count_num_failed_tasks w \<le> 100" and "attempt t < max_retries t"
  shows "finish_task w t d rc so se ar s =
     (Raise (TypeError post_data_message),
      emit [MarkTaskFinished rc so se ar (time_end w - time_start w), Rmtree d,
            CountNumFailedTasks] s)"
  using assms by (simp add: finish_task_def Let_def emit_emit submit_retry_task_raises)

lemma finish_task_none:
  assumes "rc \<noteq> 0" and "count_num_failed_tasks w \<le> 100" and "\<not> attempt t < max_retries t"
  shows "finish_task w t d rc so se ar s =
     (Return (),
      emit [MarkTaskFinished rc so se ar (time_end w - time_start w), Rmtree d,
            CountNumFailedTasks] s)"
  using assms by (simp add: finish_task_def Let_def emit_emit)

text \<open>
  The events of \<^verbatim>\<open>run_task\<close> from the report on: the report, the removal of the work
  directory, and then nothing after a success, and after a failure the query of the
  failed count, followed by the request to \<^verbatim>\<open>cancel_job\<close> and perhaps a write to stderr
  when the count is above 100. The function never waits without end.
\<close>

lemma finish_task_events:
  assumes "finish_task w t d rc so se ar s = (out, s')"
  shows "\<exists>post. trace s' = trace s
             @ MarkTaskFinished rc so se ar (time_end w - time_start w) # Rmtree d # post
           \<and> list_all after_report post \<and> out \<noteq> Hang"
proof -
  let ?rep = "[MarkTaskFinished rc so se ar (time_end w - time_start w), Rmtree d]"
  let ?s3 = "emit (?rep @ [CountNumFailedTasks]) s"
  consider (ok) "rc = 0"
    | (cancel) "rc \<noteq> 0" "count_num_failed_tasks w > 100"
    | (retry) "rc \<noteq> 0" "count_num_failed_tasks w \<le> 100" "attempt t < max_retries t"
    | (none) "rc \<noteq> 0" "count_num_failed_tasks w \<le> 100" "\<not> attempt t < max_retries t"
    by linarith
  then show ?thesis
  proof cases
    case ok
    with assms have "out = Return ()" "s' = emit ?rep s"
      by (simp_all add: finish_task_ok)
    then show ?thesis by (intro exI [of _ "[]"]) (simp add: trace_emit)
  next
    case cancel
    from cancel_job_shape [of w "job_id t" ?s3] obtain ws where
      c: "cancel_job w (job_id t) ?s3
            = (Return (), emit (Urlopen (cancel_job_url ?s3 (job_id t)) None # ws) ?s3)"
      and ws: "list_all stderr_write ws"
      by blast
    from assms cancel c have res: "out = Return ()"
      "s' = emit (Urlopen (cancel_job_url ?s3 (job_id t)) None # ws) ?s3"
      by (simp_all add: finish_task_cancel)
    have "list_all after_report ws" using ws by (rule stderr_write_after)
    with res show ?thesis
      by (intro exI [of _ "CountNumFailedTasks
             # Urlopen (cancel_job_url ?s3 (job_id t)) None # ws"])
         (simp add: trace_emit)
  next
    case retry
    with assms have "out = Raise (TypeError post_data_message)" "s' = ?s3"
      by (simp_all add: finish_task_retry)
    then show ?thesis
      by (intro exI [of _ "[CountNumFailedTasks]"]) (simp add: trace_emit)
  next
    case none
    with assms have "out = Return ()" "s' = ?s3"
      by (simp_all add: finish_task_none)
    then show ?thesis
      by (intro exI [of _ "[CountNumFailedTasks]"]) (simp add: trace_emit)
  qed
qed

lemma before_report_not_report:
  "list_all before_report evs \<Longrightarrow> MarkTaskFinished rc so se ar dur \<notin> set evs"
  by (induction evs) auto

lemma after_report_not_report:
  "list_all after_report evs \<Longrightarrow> MarkTaskFinished rc so se ar dur \<notin> set evs"
  by (induction evs) auto

lemma after_report_not_Popen:
  "list_all after_report evs \<Longrightarrow> Popen cmd cwd \<notin> set evs"
  by (induction evs) auto


subsection \<open>run_task as a whole\<close>

lemma attempt_events_Popen:
  assumes "attempt_events s t d a" and "Popen cmd cwd \<in> set a"
  shows "cmd = download_cmd_files s t d \<or> cmd = download_cmd_isolated s t d"
proof (cases a)
  case Nil
  with assms show ?thesis by simp
next
  case (Cons e rest)
  with assms(1) have e: "e = Popen (download_cmd_files s t d) None"
    and rest: "list_all (\<lambda>e. supervision_event e
                           \<or> e = Popen (download_cmd_isolated s t d) None
                           \<or> e = MakeTreeWriteable d) rest"
    by (simp_all add: attempt_events_def)
  from assms(2) Cons consider "Popen cmd cwd = e" | "Popen cmd cwd \<in> set rest" by auto
  then show ?thesis
  proof cases
    case 1
    with e show ?thesis by simp
  next
    case 2
    with rest have "supervision_event (Popen cmd cwd)
        \<or> Popen cmd cwd = Popen (download_cmd_isolated s t d) None
        \<or> Popen cmd cwd = MakeTreeWriteable d"
      unfolding list_all_iff by blast
    then show ?thesis by (simp add: supervision_event_def)
  qed
qed

text \<open>
  \<^verbatim>\<open>run_task\<close> for a task that the results store lets run: the state after the work
  directory was made, from which the download starts.
\<close>

lemma run_task_started:
  assumes "mark_task_running w"
  shows "run_task w t s =
     (case download_task_files_with_retries w t (make_temp_dir w)
             (emit [MarkTaskRunning, MakeTempDir (make_temp_dir w)] s) of
        (Hang, s2) \<Rightarrow> (Hang, s2)
      | (Raise e, s2) \<Rightarrow>
          finish_task w t (make_temp_dir w) (- 2) None (Some (str e)) None s2
      | (Return isolated_info, s2) \<Rightarrow>
          run_downloaded w t (make_temp_dir w) isolated_info s2)"
  using assms by (simp add: run_task_def Let_def emit_emit)

lemma run_task_canceled:
  assumes "\<not> mark_task_running w"
  shows "run_task w t s = (Return (), emit [MarkTaskRunning] s)"
  using assms by (simp add: run_task_def Let_def)

lemma run_task_failed_download:
  assumes run: "mark_task_running w" and ends: "\<forall>n. child_ends (procs w n)"
  shows "\<exists>out s' e a1 a2 a3 s3 s4 post.
      run_task w t s = (out, s') \<and> out \<noteq> Hang
    \<and> attempt_events s t (make_temp_dir w) a1
    \<and> attempt_events s t (make_temp_dir w) a2
    \<and> attempt_events s t (make_temp_dir w) a3
    \<and> trace s3 = trace s @ [MarkTaskRunning, MakeTempDir (make_temp_dir w)]
          @ a1 @ [Rmtree (make_temp_dir w), Makedirs (make_temp_dir w), Sleep 5]
          @ a2 @ [Rmtree (make_temp_dir w), Makedirs (make_temp_dir w), Sleep 5]
    \<and> download_task_files w t (make_temp_dir w) s3 = (Raise e, s4)
    \<and> trace s4 = trace s3 @ a3
    \<and> trace s' = trace s4
          @ [MarkTaskFinished (- 2) None (Some (str e)) None (time_end w - time_start w),
             Rmtree (make_temp_dir w)]
          @ post
    \<and> list_all after_report post"
proof -
  let ?d = "make_temp_dir w"
  let ?s1 = "emit [MarkTaskRunning, MakeTempDir ?d] s"
  let ?sep = "[Rmtree ?d, Makedirs ?d, Sleep 5]"
  obtain dout s2 where dl: "download_task_files_with_retries w t ?d ?s1 = (dout, s2)"
    by (cases "download_task_files_with_retries w t ?d ?s1")
  note shape = with_retries_shape [OF dl]
  from shape ends have "dout \<noteq> Hang" and "\<forall>m. dout \<noteq> Return m" by simp_all
  then obtain e where e: "dout = Raise e" by (cases dout) auto
  from shape e obtain a1 a2 a3 s3 where
    a1: "attempt_events ?s1 t ?d a1" and a2: "attempt_events ?s1 t ?d a2"
    and a3: "attempt_events ?s1 t ?d a3"
    and g3: "grows ?s1 s3 (a1 @ ?sep @ a2 @ ?sep)"
    and third: "download_task_files w t ?d s3 = (Raise e, s2)"
    and g4: "grows s3 s2 a3"
    by blast
  have att: "attempt_events ?s1 t ?d = attempt_events s t ?d"
    by (rule attempt_events_grows [OF grows_emit])
  obtain out s' where fin:
    "finish_task w t ?d (- 2) None (Some (str e)) None s2 = (out, s')"
    by (cases "finish_task w t ?d (- 2) None (Some (str e)) None s2")
  from finish_task_events [OF fin] obtain post where
    tr: "trace s' = trace s2
           @ MarkTaskFinished (- 2) None (Some (str e)) None (time_end w - time_start w)
             # Rmtree ?d # post"
    and post: "list_all after_report post" and nh: "out \<noteq> Hang"
    by blast
  have rt: "run_task w t s = (out, s')"
    using dl e fin by (simp add: run_task_started [OF run])
  have t3: "trace s3 = trace s @ [MarkTaskRunning, MakeTempDir ?d] @ a1 @ ?sep @ a2 @ ?sep"
    using grows_trace [OF g3] by (simp add: trace_emit)
  have t4: "trace s2 = trace s3 @ a3"
    using g4 by (rule grows_trace)
  show ?thesis
    using rt nh a1 a2 a3 t3 third t4 tr post unfolding att
    by (intro exI [of _ out] exI [of _ s'] exI [of _ e] exI [of _ a1] exI [of _ a2]
          exI [of _ a3] exI [of _ s3] exI [of _ s2] exI [of _ post]) simp
qed


text \<open>
  Since the download never returns a manifest, no call of \<^verbatim>\<open>run_task\<close> enters the branch
  \<^verbatim>\<open>if downloaded:\<close>, and every report that \<^verbatim>\<open>run_task\<close> makes is the report of a failed
  download.
\<close>

lemma run_task_reports_only_failed_downloads:
  assumes "run_task w t s = (out, s')" and "trace s' = trace s @ evs"
    and "MarkTaskFinished rc so se ar dur \<in> set evs"
  shows "rc = - 2 \<and> so = None \<and> ar = None"
proof (cases "mark_task_running w")
  case False
  with assms(1) have "s' = emit [MarkTaskRunning] s" by (simp add: run_task_canceled)
  with assms(2) have "evs = [MarkTaskRunning]" by (simp add: trace_emit)
  with assms(3) show ?thesis by simp
next
  case True
  let ?d = "make_temp_dir w"
  let ?s1 = "emit [MarkTaskRunning, MakeTempDir ?d] s"
  obtain dout s2 where dl: "download_task_files_with_retries w t ?d ?s1 = (dout, s2)"
    by (cases "download_task_files_with_retries w t ?d ?s1")
  from with_retries_shape [OF dl] obtain pre where
    g: "grows ?s1 s2 pre" and pre: "list_all before_report pre"
    and nr: "\<forall>m. dout \<noteq> Return m"
    by blast
  let ?pre = "[MarkTaskRunning, MakeTempDir ?d] @ pre"
  have t2: "trace s2 = trace s @ ?pre"
    using grows_trace [OF g] by (simp add: trace_emit)
  have bpre: "list_all before_report ?pre" using pre by simp
  have nopre: "MarkTaskFinished rc so se ar dur \<notin> set ?pre"
    using bpre by (rule before_report_not_report)
  show ?thesis
  proof (cases dout)
    case Hang
    with assms(1) dl have "s' = s2" by (simp add: run_task_started [OF True])
    with t2 assms(2) have "evs = ?pre" by simp
    with nopre assms(3) show ?thesis by simp
  next
    case (Return info)
    with nr show ?thesis by simp
  next
    case (Raise e)
    with assms(1) dl have fin:
      "finish_task w t ?d (- 2) None (Some (str e)) None s2 = (out, s')"
      by (simp add: run_task_started [OF True])
    from finish_task_events [OF fin] obtain post where
      tr: "trace s' = trace s2
             @ MarkTaskFinished (- 2) None (Some (str e)) None (time_end w - time_start w)
               # Rmtree ?d # post"
      and post: "list_all after_report post"
      by blast
    from tr t2 assms(2) have "evs = ?pre
         @ MarkTaskFinished (- 2) None (Some (str e)) None (time_end w - time_start w)
           # Rmtree ?d # post"
      by simp
    moreover have "MarkTaskFinished rc so se ar dur \<notin> set post"
      using post by (rule after_report_not_report)
    ultimately show ?thesis using nopre assms(3) by auto
  qed
qed

subsection \<open>Runs in the example surroundings\<close>

lemma test_world_fields:
  "reserve_task (test_world ps fs fin failed answer) = Inr log_task"
  "mark_task_running (test_world ps fs fin failed answer)"
  "make_temp_dir (test_world ps fs fin failed answer) = ''/cache.0/dist-test-task1''"
  "time_end (test_world ps fs fin failed answer) - time_start (test_world ps fs fin failed answer) = fin"
  "procs (test_world ps fs fin failed answer) = ps"
  "ensure_command_has_abs_path (test_world ps fs fin failed answer) cmd cwd = cmd"
  "files (test_world ps fs fin failed answer) = fs"
  "count_num_failed_tasks (test_world ps fs fin failed answer) = failed"
  "master (test_world ps fs fin failed answer) url = answer"
  "urlencode (test_world ps fs fin failed answer) json = ''task_json='' @ json"
  by (simp_all add: test_world_def)

lemma log_task_fields:
  "job_id log_task = ''job1''" "retry_id log_task = ''job1.7''"
  "docker_image log_task = None" "timeout log_task = 30"
  "attempt log_task = 0" "max_retries log_task = 2"
  "artifact_archive_globs log_task = Some [''*.log'']" "to_json log_task = ''{}''"
  by (simp_all add: log_task_def)

lemma worker0_fields:
  "trace worker0 = []" "spawned worker0 = 0"
  "retry_cache worker0 = \<lparr>cache = [], max_size = 100, max_count = 10\<rparr>"
  "DIST_TEST_MASTER worker0 = ''http://master''"
  "cur_task worker0 = None" "is_busy worker0 = False"
  by (simp_all add: worker0_def RetryCache_default_def RetryCache_init_def)

lemma idle_simps:
  "read_stdout (idle c) = None" "read_stderr (idle c) = None" "\<not> xlist (idle c)"
  "poll (idle c) = None" "now (idle c) = c" "now_touch (idle c) = c" "now_touched (idle c) = c"
  by (simp_all add: idle_def)

text \<open>
  A pass in which nothing is readable and the child is alive: the escalation of the
  timeout, and the touch of the queue element.
\<close>

lemma loop_body_idle:
  "loop_body t_out ktt kkt (idle c) r =
     Inr (False,
       r\<lparr>stderr := stderr r @ (if t_out > 0 \<and> c > ktt then killing_message t_out else []),
         sent := sent r @ (if t_out > 0 \<and> c > ktt then [Terminate] else [])
                 @ (if t_out > 0 \<and> c > kkt then [Kill] else [])
                 @ (if c - last_touch r > 10 then [Touch] else []),
         last_touch := (if c - last_touch r > 10 then c else last_touch r)\<rparr>)"
  by (simp add: loop_body_def Let_def idle_simps)

lemma loop_body_wrote:
  "loop_body t_out ktt kkt (wrote x c) r = Inl (TypeError concat_bytes_message)"
  by (simp add: loop_body_def wrote_def)


lemma loop_body_closed:
  "loop_body t_out ktt kkt (closed rc c) r = Inl (TypeError concat_bytes_message)"
  by (simp add: loop_body_def closed_def)


lemma supervised_run_verbose:
  "supervised_run t_out (verbose c) = (Raise (TypeError concat_bytes_message), [])"
  by (simp add: supervised_run_def verbose_def loop_body_wrote Let_def)

lemma supervised_run_chatty:
  "supervised_run 2 chatty = (Raise (TypeError concat_bytes_message), [])"
  by (simp add: supervised_run_def chatty_def loop_body_idle loop_body_wrote Let_def)

lemma supervised_run_silent:
  "supervised_run 2 silent =
     (Raise (TypeError concat_bytes_message), [Terminate, Terminate, Terminate, Kill])"
  by (simp add: supervised_run_def silent_def loop_body_idle loop_body_closed Let_def)


lemma emit_spawned: "(emit evs s)\<lparr>spawned := n\<rparr> = emit evs (s\<lparr>spawned := n\<rparr>)"
  by (simp add: emit_def)

lemma download_cmd_emit:
  "download_cmd_files (emit evs (s\<lparr>spawned := n\<rparr>)) t d = download_cmd_files s t d"
  by (simp add: download_cmd_files_def download_cmd_base_def emit_def)

text \<open>A command whose child is \<open>p\<close>, in terms of the supervised run of \<open>p\<close>.\<close>

lemma run_command_child:
  assumes "procs w (spawned s) = Inr p" and "supervised_run t_out p = (res, evs)"
  shows "run_command_and_touch_task w cmd t_out cwd s =
     (res, emit (Popen cmd cwd # evs) (s\<lparr>spawned := Suc (spawned s)\<rparr>))"
  using assms by (simp add: run_command_and_touch_task_def Let_def emit_emit)

text \<open>
  When every download command writes its log lines at once, every attempt raises at the
  first read, and so does the download with its retries, after three attempts.
\<close>

lemma download_task_files_verbose:
  assumes "\<And>n. procs w n = Inr (verbose (f n))"
  shows "download_task_files w t d s =
     (Raise (TypeError concat_bytes_message),
      emit [Popen (download_cmd_files s t d) None] (s\<lparr>spawned := Suc (spawned s)\<rparr>))"
  by (simp add: download_task_files_def and_then_def
      run_command_child [OF assms supervised_run_verbose])

lemma with_retries_verbose:
  assumes "\<And>n. procs w n = Inr (verbose (f n))"
  shows "download_task_files_with_retries w t d s =
     (Raise (TypeError concat_bytes_message),
      emit [Popen (download_cmd_files s t d) None, Rmtree d, Makedirs d, Sleep 5,
            Popen (download_cmd_files s t d) None, Rmtree d, Makedirs d, Sleep 5,
            Popen (download_cmd_files s t d) None]
        (s\<lparr>spawned := Suc (Suc (Suc (spawned s)))\<rparr>))"
proof -
  have rems: "rev [0..<NUM_DOWNLOAD_ATTEMPTS_PER_TASK] = [Suc (Suc 0), Suc 0, 0]"
    by (simp add: NUM_DOWNLOAD_ATTEMPTS_PER_TASK_def upt_rec numeral_3_eq_3)
  show ?thesis
    unfolding download_task_files_with_retries_def rems
    by (simp add: download_task_files_verbose [OF assms] emit_emit emit_spawned
        download_cmd_emit emit_fields)
qed

lemma run_task_verbose:
  assumes "\<And>n. procs w n = Inr (verbose (f n))" and "mark_task_running w"
  shows "run_task w t s =
     finish_task w t (make_temp_dir w) (- 2) None (Some concat_bytes_message) None
       (emit [MarkTaskRunning, MakeTempDir (make_temp_dir w),
              Popen (download_cmd_files s t (make_temp_dir w)) None,
              Rmtree (make_temp_dir w), Makedirs (make_temp_dir w), Sleep 5,
              Popen (download_cmd_files s t (make_temp_dir w)) None,
              Rmtree (make_temp_dir w), Makedirs (make_temp_dir w), Sleep 5,
              Popen (download_cmd_files s t (make_temp_dir w)) None]
          (s\<lparr>spawned := Suc (Suc (Suc (spawned s)))\<rparr>))"
proof -
  have dc: "download_cmd_files (emit evs s) t d = download_cmd_files s t d" for evs d
    by (simp add: download_cmd_files_def download_cmd_base_def emit_def)
  show ?thesis
    unfolding run_task_started [OF assms(2)] with_retries_verbose [OF assms(1)]
    by (simp add: emit_emit emit_spawned emit_fields dc)
qed

text \<open>
  In the example surroundings with verbose download commands: the run of \<open>log_task\<close> up
  to the query of the failed count.
\<close>

lemma run_task_test:
  "run_task (test_world (\<lambda>n. Inr (verbose (f n))) fs 11 failed answer) log_task s =
     finish_task (test_world (\<lambda>n. Inr (verbose (f n))) fs 11 failed answer) log_task
       ''/cache.0/dist-test-task1'' (- 2) None (Some concat_bytes_message) None
       (emit (butlast (butlast (failed_download_events s log_task)))
          (s\<lparr>spawned := Suc (Suc (Suc (spawned s)))\<rparr>))"
  by (simp add: run_task_verbose test_world_fields failed_download_events_def)

lemma run_task_test_retry:
  assumes "failed \<le> 100"
  shows "run_task (test_world (\<lambda>n. Inr (verbose (f n))) fs 11 failed answer) log_task s =
     (Raise (TypeError post_data_message),
      emit (failed_download_events s log_task @ [CountNumFailedTasks])
        (s\<lparr>spawned := Suc (Suc (Suc (spawned s)))\<rparr>))"
  unfolding run_task_test
  using assms
  by (simp add: finish_task_retry test_world_fields log_task_fields emit_emit
      failed_download_events_def)

lemma run_task_test_cancel:
  assumes "failed > 100"
  shows "run_task (test_world (\<lambda>n. Inr (verbose (f n))) fs 11 failed accepted) log_task s =
     (Return (),
      emit (failed_download_events s log_task
              @ [CountNumFailedTasks, Urlopen (cancel_job_url s ''job1'') None])
        (s\<lparr>spawned := Suc (Suc (Suc (spawned s)))\<rparr>))"
  unfolding run_task_test
  using assms
  by (simp add: finish_task_cancel test_world_fields log_task_fields emit_emit
      failed_download_events_def cancel_job_def urlopen_def accepted_def cancel_job_url_def
      emit_def)

subsection \<open>The artifact archiver\<close>

text \<open>\<^verbatim>\<open>make_archive\<close> returns \<^verbatim>\<open>None\<close> or raises; it never returns an archive.\<close>

lemma make_archive_never_returns_archive: "make_archive fs t d \<noteq> Inr (Some a)"
  by (simp add: make_archive_def zip_into_StringIO_def Let_def
      split: option.splits prod.splits)

text \<open>
  C7, on the code. The work directory is \<^verbatim>\<open>/cache.0/dist-test-task1\<close>; the glob
  \<^verbatim>\<open>*.log\<close> matches \<^verbatim>\<open>out.log\<close> in it, a symbolic link whose canonical path is
  \<^verbatim>\<open>/cache.0/dist-test-task10/secret.log\<close>. That path does not lie within the work
  directory, yet it starts with the work directory's name, so the test
  \<^verbatim>\<open>canonical.startswith(test_dir)\<close> lets it pass: the match is not discarded, the loops
  end with the path in \<^verbatim>\<open>all_matched\<close> and its ten bytes in \<^verbatim>\<open>total_size\<close>, and
  \<^verbatim>\<open>make_archive\<close> goes on to write it into the zip file (where it raises, as it does for
  every file it retains). A link to \<^verbatim>\<open>/etc/passwd\<close> is discarded, as the claim has it for
  every path outside the work directory: nothing is retained and the result is \<^verbatim>\<open>None\<close>.
\<close>

theorem archiver_keeps_file_outside_work_dir:
  "\<not> lies_within ''/cache.0/dist-test-task1'' ''/cache.0/dist-test-task10/secret.log''
   \<and> scan_globs escape_fs ''/cache.0/dist-test-task1'' [''*.log''] ([], 0)
       = ([''/cache.0/dist-test-task10/secret.log''], 10)
   \<and> make_archive escape_fs log_task (Some ''/cache.0/dist-test-task1'')
       = Inl (TypeError string_argument_message)
   \<and> scan_globs far_fs ''/cache.0/dist-test-task1'' [''*.log''] ([], 0) = ([], 0)
   \<and> make_archive far_fs log_task (Some ''/cache.0/dist-test-task1'') = Inr None"
  by (simp add: make_archive_def escape_fs_def far_fs_def log_task_def lies_within_def
      zip_into_StringIO_def archive_max_size_def)

text \<open>
  C8, on the code. With no matching file the archiver returns \<^verbatim>\<open>None\<close>, as the claim
  says. With one matching log file in the work directory, of 10 bytes, of exactly
  \<open>200 * 1024 * 1024\<close> bytes, or of one byte more, it returns no archive: it raises
  \<^verbatim>\<open>TypeError\<close>, because the zip file is written into an \<^verbatim>\<open>io.StringIO\<close>, which takes
  no \<^verbatim>\<open>bytes\<close>. The claim asks for a compressed archive of the file in the first two
  cases and for an archive with the single member \<^verbatim>\<open>_ARCHIVE_TOO_BIG_\<close> in the third.
\<close>

theorem make_archive_raises_for_every_match:
  "make_archive empty_fs log_task (Some ''/cache.0/dist-test-task1'') = Inr None
   \<and> scan_globs (one_log_fs 10) ''/cache.0/dist-test-task1'' [''*.log''] ([], 0)
       = ([''/cache.0/dist-test-task1/out.log''], 10)
   \<and> make_archive (one_log_fs 10) log_task (Some ''/cache.0/dist-test-task1'')
       = Inl (TypeError string_argument_message)
   \<and> make_archive (one_log_fs (200 * 1024 * 1024)) log_task (Some ''/cache.0/dist-test-task1'')
       = Inl (TypeError string_argument_message)
   \<and> make_archive (one_log_fs (200 * 1024 * 1024 + 1)) log_task
         (Some ''/cache.0/dist-test-task1'')
       = Inl (TypeError string_argument_message)"
  by (simp add: make_archive_def empty_fs_def one_log_fs_def log_task_def
      zip_into_StringIO_def)

subsection \<open>The supervised runner\<close>

text \<open>
  With \<^verbatim>\<open>timeout = 0\<close> (or below) the runner sends neither \<^verbatim>\<open>terminate\<close> nor \<^verbatim>\<open>kill\<close>,
  whatever the child does.
\<close>

lemma loop_body_no_signal:
  assumes "t_out \<le> 0" and "loop_body t_out ktt kkt ob r = Inr (b, r')"
    and "Terminate \<notin> set (sent r)" and "Kill \<notin> set (sent r)"
  shows "Terminate \<notin> set (sent r') \<and> Kill \<notin> set (sent r')"
  using assms
  by (auto simp: loop_body_def Let_def split: option.splits if_splits)

lemma supervise_no_signal:
  assumes "t_out \<le> 0" and "Terminate \<notin> set (sent r)" and "Kill \<notin> set (sent r)"
  shows "Terminate \<notin> set (sent (snd (supervise t_out ktt kkt obs r)))
       \<and> Kill \<notin> set (sent (snd (supervise t_out ktt kkt obs r)))"
  using assms
proof (induction obs arbitrary: r)
  case Nil
  then show ?case by simp
next
  case (Cons ob obs)
  show ?case
  proof (cases "loop_body t_out ktt kkt ob r")
    case (Inl e)
    with Cons.prems show ?thesis by simp
  next
    case (Inr br)
    obtain b r' where br: "br = (b, r')" by (cases br)
    from Inr br Cons.prems have clean: "Terminate \<notin> set (sent r') \<and> Kill \<notin> set (sent r')"
      using loop_body_no_signal by blast
    show ?thesis
      using Inr br clean Cons.IH [of r'] Cons.prems(1) by (cases b) simp_all
  qed
qed

lemma no_timeout_no_signal:
  "Terminate \<notin> set (snd (supervised_run 0 p)) \<and> Kill \<notin> set (snd (supervised_run 0 p))"
  unfolding supervised_run_sent by (rule supervise_no_signal) simp_all

text \<open>
  C4, on the code. A command is run with a timeout of 2 seconds; its child is started
  at the clock 100, is silent at 102, has written \<^verbatim>\<open>tick\<close> when the runner wakes at 103,
  and runs on. In the pass at 103 more than 2 seconds have passed and the child lives,
  but the pass does not get to the test of the timeout: the read gives \<^verbatim>\<open>bytes\<close>,
  \<^verbatim>\<open>stdout += x\<close> raises \<^verbatim>\<open>TypeError\<close>, and the exception leaves
  \<^verbatim>\<open>run_command_and_touch_task\<close>. Neither \<^verbatim>\<open>terminate\<close> nor \<^verbatim>\<open>kill\<close> is sent, then or
  later, and the child is left running. The claim asks for the termination once the
  timeout has passed.

  A child that never writes is sent \<^verbatim>\<open>terminate\<close> from 104 on and \<^verbatim>\<open>kill\<close> at 108, as the
  claim says; when it is gone its pipes are at their end and readable, the same
  \<^verbatim>\<open>TypeError\<close> is raised, and the captured stderr with its diagnostic lines is lost.
\<close>

theorem runner_raises_before_timeout_test:
  "wakeups chatty ! 1 = wrote ''tick'' 103
   \<and> now (wrote ''tick'' 103) - started chatty > 2
   \<and> poll (wrote ''tick'' 103) = None
   \<and> supervised_run 2 chatty = (Raise (TypeError concat_bytes_message), [])
   \<and> run_command_and_touch_task (test_world (\<lambda>n. Inr chatty) empty_fs 104 0 accepted)
         [''./run.sh''] 2 (Some ''/cache.0/dist-test-task1/'') worker0
       = (Raise (TypeError concat_bytes_message),
          emit [Popen [''./run.sh''] (Some ''/cache.0/dist-test-task1/'')]
            (worker0\<lparr>spawned := 1\<rparr>))
   \<and> supervised_run 2 silent
       = (Raise (TypeError concat_bytes_message), [Terminate, Terminate, Terminate, Kill])"
proof -
  have "run_command_and_touch_task (test_world (\<lambda>n. Inr chatty) empty_fs 104 0 accepted)
         [''./run.sh''] 2 (Some ''/cache.0/dist-test-task1/'') worker0
       = (Raise (TypeError concat_bytes_message),
          emit [Popen [''./run.sh''] (Some ''/cache.0/dist-test-task1/'')]
            (worker0\<lparr>spawned := Suc (spawned worker0)\<rparr>))"
    by (rule run_command_child [OF _ supervised_run_chatty]) (simp add: test_world_fields)
  then show ?thesis
    by (simp add: supervised_run_chatty supervised_run_silent worker0_fields)
       (simp add: chatty_def wrote_def)
qed

subsection \<open>The download with its retries, and the report of its failure\<close>

text \<open>
  C5. For every task that the results store lets run, in all surroundings in which no
  child is waited for without end, \<^verbatim>\<open>run_task\<close> comes to an end, and its events are, in
  this order: the work directory is made; a first attempt \<open>a1\<close> of the download; the work
  directory is removed and made anew and the worker sleeps 5 seconds; a second attempt
  \<open>a2\<close>; again the removal, the making and the sleep of 5 seconds; a third attempt \<open>a3\<close>,
  which raises an exception \<open>e\<close>; the report to the results store with
  \<^verbatim>\<open>result_code = -2\<close>, no stdout, the stderr \<^verbatim>\<open>str(e)\<close> and no archive; the removal of the
  work directory; and events \<open>post\<close> of the policy after a failure. There is no fourth
  attempt. Each attempt starts with the first download command, and every command
  started during the run is one of the two download commands: the command of the task
  is never run. (Every attempt fails: \<^verbatim>\<open>download_task_files\<close> cannot return.)
\<close>

theorem download_attempted_three_times:
  assumes "mark_task_running w" and "\<forall>n. child_ends (procs w n)"
  shows "\<exists>out s' e a1 a2 a3 s3 s4 post.
      run_task w t s = (out, s') \<and> out \<noteq> Hang
    \<and> attempt_events s t (make_temp_dir w) a1
    \<and> attempt_events s t (make_temp_dir w) a2
    \<and> attempt_events s t (make_temp_dir w) a3
    \<and> trace s3 = trace s @ [MarkTaskRunning, MakeTempDir (make_temp_dir w)]
          @ a1 @ [Rmtree (make_temp_dir w), Makedirs (make_temp_dir w), Sleep 5]
          @ a2 @ [Rmtree (make_temp_dir w), Makedirs (make_temp_dir w), Sleep 5]
    \<and> download_task_files w t (make_temp_dir w) s3 = (Raise e, s4)
    \<and> trace s4 = trace s3 @ a3
    \<and> trace s' = trace s4
          @ [MarkTaskFinished (- 2) None (Some (str e)) None (time_end w - time_start w),
             Rmtree (make_temp_dir w)]
          @ post
    \<and> list_all after_report post
    \<and> (\<forall>cmd cwd. Popen cmd cwd \<in> set (a1 @ a2 @ a3 @ post) \<longrightarrow>
          cmd = download_cmd_files s t (make_temp_dir w)
          \<or> cmd = download_cmd_isolated s t (make_temp_dir w))"
proof -
  let ?d = "make_temp_dir w"
  from run_task_failed_download [OF assms, of t s] obtain out s' e a1 a2 a3 s3 s4 post where
    run: "run_task w t s = (out, s')" and nh: "out \<noteq> Hang"
    and a1: "attempt_events s t ?d a1" and a2: "attempt_events s t ?d a2"
    and a3: "attempt_events s t ?d a3"
    and t3: "trace s3 = trace s @ [MarkTaskRunning, MakeTempDir ?d]
          @ a1 @ [Rmtree ?d, Makedirs ?d, Sleep 5]
          @ a2 @ [Rmtree ?d, Makedirs ?d, Sleep 5]"
    and third: "download_task_files w t ?d s3 = (Raise e, s4)"
    and t4: "trace s4 = trace s3 @ a3"
    and t5: "trace s' = trace s4
          @ [MarkTaskFinished (- 2) None (Some (str e)) None (time_end w - time_start w),
             Rmtree ?d]
          @ post"
    and post: "list_all after_report post"
    by blast
  have cmds: "cmd = download_cmd_files s t ?d \<or> cmd = download_cmd_isolated s t ?d"
    if "Popen cmd cwd \<in> set (a1 @ a2 @ a3 @ post)" for cmd cwd
  proof -
    from that after_report_not_Popen [OF post, of cmd cwd]
    consider "Popen cmd cwd \<in> set a1" | "Popen cmd cwd \<in> set a2" | "Popen cmd cwd \<in> set a3"
      by auto
    then show ?thesis
      using attempt_events_Popen [OF a1] attempt_events_Popen [OF a2]
        attempt_events_Popen [OF a3]
      by cases blast+
  qed
  show ?thesis
    using run nh a1 a2 a3 t3 third t4 t5 post cmds
    by (intro exI [of _ out] exI [of _ s'] exI [of _ e] exI [of _ a1] exI [of _ a2]
          exI [of _ a3] exI [of _ s3] exI [of _ s4] exI [of _ post]) blast
qed

subsection \<open>The report of a success\<close>


subsection \<open>The policy after a failure, and errors of the master's endpoints\<close>

text \<open>
  The main loop in the example surroundings with verbose download commands, for a
  worker that has not the retry id of \<open>log_task\<close> in its cache, when the job has at most
  100 failed tasks.
\<close>

lemma run_pass_test_retry:
  assumes "failed \<le> 100" and "map_of (cache (retry_cache s)) ''job1.7'' = None"
  shows "run_pass (verbose_world failed answer) s =
     (Raise (TypeError post_data_message),
      emit (ReserveTask # failed_download_events s log_task @ [CountNumFailedTasks])
        (s\<lparr>cur_task := Some log_task, is_busy := True,
            spawned := Suc (Suc (Suc (spawned s)))\<rparr>))"
proof -
  let ?w = "verbose_world failed answer"
  let ?s3 = "(emit [ReserveTask] (s\<lparr>is_busy := False\<rparr>))
               \<lparr>cur_task := Some log_task, retry_cache := retry_cache s, is_busy := True\<rparr>"
  have g: "get (retry_cache s) ''job1.7'' = (None, retry_cache s)"
    using assms(2) by (simp add: get_def)
  have dc: "download_cmd_files ?s3 log_task d = download_cmd_files s log_task d" for d
    by (simp add: download_cmd_files_def download_cmd_base_def emit_def)
  have ev: "failed_download_events ?s3 log_task = failed_download_events s log_task"
    by (simp add: failed_download_events_def dc)
  have "run_pass ?w s = and_then (run_task ?w log_task ?s3)
              (\<lambda>_ s3. (Return (), (emit [Delete] s3)\<lparr>cur_task := None\<rparr>))"
    by (simp add: run_pass_def verbose_world_def test_world_fields Let_def emit_fields
        log_task_fields g)
  also have "\<dots> = (Raise (TypeError post_data_message),
            emit (failed_download_events s log_task @ [CountNumFailedTasks])
              (?s3\<lparr>spawned := Suc (Suc (Suc (spawned ?s3)))\<rparr>))"
    unfolding verbose_world_def run_task_test_retry [OF assms(1)] ev
    by (simp add: and_then_def)
  also have "\<dots> = (Raise (TypeError post_data_message),
      emit (ReserveTask # failed_download_events s log_task @ [CountNumFailedTasks])
        (s\<lparr>cur_task := Some log_task, is_busy := True,
            spawned := Suc (Suc (Suc (spawned s)))\<rparr>))"
    by (simp add: emit_def)
  finally show ?thesis .
qed

text \<open>
  C6, on the code. The download of \<open>log_task\<close> fails, so its run ends with
  \<^verbatim>\<open>result_code = -2\<close>; the job has one failed task, and the task is at attempt 0 of at
  most 2 retries. The claim asks for the POST of the serialized task to \<^verbatim>\<open>retry_task\<close> and
  for the retry id in the cache. \<^verbatim>\<open>submit_retry_task\<close> hands \<^verbatim>\<open>urlopen\<close> the \<^verbatim>\<open>str\<close> that
  \<^verbatim>\<open>urlencode\<close> returned; \<^verbatim>\<open>urlopen\<close> raises \<^verbatim>\<open>TypeError\<close> before it sends anything, and
  the exception leaves \<^verbatim>\<open>run_task\<close>. No request is among the events, and the retry cache
  is as empty as before.
\<close>

theorem retry_is_neither_posted_nor_cached:
  "attempt log_task < max_retries log_task
   \<and> count_num_failed_tasks (verbose_world 1 accepted) \<le> 100
   \<and> run_task (verbose_world 1 accepted) log_task worker0 =
       (Raise (TypeError post_data_message),
        emit (failed_download_events worker0 log_task @ [CountNumFailedTasks])
          (worker0\<lparr>spawned := 3\<rparr>))
   \<and> failed_download_events worker0 log_task ! 11
       = MarkTaskFinished (- 2) None (Some concat_bytes_message) None 11
   \<and> filter after_report (failed_download_events worker0 log_task @ [CountNumFailedTasks])
       = [CountNumFailedTasks]
   \<and> (\<forall>url data. Urlopen url data
          \<notin> set (failed_download_events worker0 log_task @ [CountNumFailedTasks]))
   \<and> cache (retry_cache (emit (failed_download_events worker0 log_task @ [CountNumFailedTasks])
                            (worker0\<lparr>spawned := 3\<rparr>))) = []"
proof -
  have "run_task (verbose_world 1 accepted) log_task worker0 =
       (Raise (TypeError post_data_message),
        emit (failed_download_events worker0 log_task @ [CountNumFailedTasks])
          (worker0\<lparr>spawned := Suc (Suc (Suc (spawned worker0)))\<rparr>))"
    unfolding verbose_world_def by (rule run_task_test_retry) simp
  then show ?thesis
    by (simp add: worker0_fields log_task_fields verbose_world_def test_world_fields
        emit_fields numeral_3_eq_3)
       (simp add: failed_download_events_def)
qed

text \<open>
  C3, on the code. The same run inside the main loop: the exception that \<^verbatim>\<open>urlopen\<close>
  raises in \<^verbatim>\<open>submit_retry_task\<close> is caught nowhere; it leaves \<^verbatim>\<open>submit_retry_task\<close>,
  \<^verbatim>\<open>run_task\<close> and \<^verbatim>\<open>Slave.run\<close>. Of the two passes given, the second never starts (one
  \<open>ReserveTask\<close> in the trace); the reserved task is not deleted from the queue and
  nothing is written to stderr. The neighbouring \<^verbatim>\<open>cancel_job\<close> does what the claim says
  when the master cannot be reached: it writes to stderr and returns.
\<close>

theorem retry_submission_error_leaves_main_loop:
  "run [verbose_world 1 accepted, verbose_world 1 accepted] worker0 =
     (Raise (TypeError post_data_message),
      emit (ReserveTask # failed_download_events worker0 log_task @ [CountNumFailedTasks])
        (worker0\<lparr>cur_task := Some log_task, is_busy := True, spawned := 3\<rparr>))
   \<and> cancel_job (verbose_world 101 refused) ''job1'' worker0 =
       (Return (),
        emit [Urlopen ''http://master/cancel_job?job_id=job1'' None,
              StderrWrite (''Unable to cancel job job1: ''
                           @ ''<urlopen error [Errno 111] Connection refused>'' @ newline)]
          worker0)"
proof
  have "run_pass (verbose_world 1 accepted) worker0 =
     (Raise (TypeError post_data_message),
      emit (ReserveTask # failed_download_events worker0 log_task @ [CountNumFailedTasks])
        (worker0\<lparr>cur_task := Some log_task, is_busy := True,
            spawned := Suc (Suc (Suc (spawned worker0)))\<rparr>))"
    by (rule run_pass_test_retry) (simp_all add: worker0_fields)
  then show "run [verbose_world 1 accepted, verbose_world 1 accepted] worker0 =
     (Raise (TypeError post_data_message),
      emit (ReserveTask # failed_download_events worker0 log_task @ [CountNumFailedTasks])
        (worker0\<lparr>cur_task := Some log_task, is_busy := True, spawned := 3\<rparr>))"
    by (simp add: worker0_fields numeral_3_eq_3)
next
  show "cancel_job (verbose_world 101 refused) ''job1'' worker0 =
       (Return (),
        emit [Urlopen ''http://master/cancel_job?job_id=job1'' None,
              StderrWrite (''Unable to cancel job job1: ''
                           @ ''<urlopen error [Errno 111] Connection refused>'' @ newline)]
          worker0)"
    by (simp add: cancel_job_def urlopen_def Let_def verbose_world_def test_world_fields
        refused_def worker0_fields emit_emit unable_to_cancel_def cancel_job_url_def)
qed

subsection \<open>The download and the report, in the example surroundings\<close>

theorem download_attempted_three_times_witness:
  "mark_task_running (verbose_world 101 accepted)
   \<and> (\<forall>n. child_ends (procs (verbose_world 101 accepted) n))
   \<and> run_task (verbose_world 101 accepted) log_task worker0 =
       (Return (),
        emit (failed_download_events worker0 log_task
                @ [CountNumFailedTasks, Urlopen ''http://master/cancel_job?job_id=job1'' None])
          (worker0\<lparr>spawned := 3\<rparr>))
   \<and> (\<exists>out s' e a1 a2 a3 s3 s4 post.
          run_task (verbose_world 101 accepted) log_task worker0 = (out, s') \<and> out \<noteq> Hang
        \<and> attempt_events worker0 log_task (make_temp_dir (verbose_world 101 accepted)) a1
        \<and> attempt_events worker0 log_task (make_temp_dir (verbose_world 101 accepted)) a2
        \<and> attempt_events worker0 log_task (make_temp_dir (verbose_world 101 accepted)) a3
        \<and> trace s3 = trace worker0
              @ [MarkTaskRunning, MakeTempDir (make_temp_dir (verbose_world 101 accepted))]
              @ a1 @ [Rmtree (make_temp_dir (verbose_world 101 accepted)),
                      Makedirs (make_temp_dir (verbose_world 101 accepted)), Sleep 5]
              @ a2 @ [Rmtree (make_temp_dir (verbose_world 101 accepted)),
                      Makedirs (make_temp_dir (verbose_world 101 accepted)), Sleep 5]
        \<and> download_task_files (verbose_world 101 accepted) log_task
              (make_temp_dir (verbose_world 101 accepted)) s3 = (Raise e, s4)
        \<and> trace s4 = trace s3 @ a3
        \<and> trace s' = trace s4
              @ [MarkTaskFinished (- 2) None (Some (str e)) None
                   (time_end (verbose_world 101 accepted)
                    - time_start (verbose_world 101 accepted)),
                 Rmtree (make_temp_dir (verbose_world 101 accepted))]
              @ post
        \<and> list_all after_report post
        \<and> (\<forall>cmd cwd. Popen cmd cwd \<in> set (a1 @ a2 @ a3 @ post) \<longrightarrow>
              cmd = download_cmd_files worker0 log_task
                      (make_temp_dir (verbose_world 101 accepted))
              \<or> cmd = download_cmd_isolated worker0 log_task
                        (make_temp_dir (verbose_world 101 accepted))))"
proof -
  let ?w = "verbose_world 101 accepted"
  have a: "mark_task_running ?w"
    by (simp add: verbose_world_def test_world_fields)
  have b: "\<forall>n. child_ends (procs ?w n)"
    by (simp add: verbose_world_def test_world_fields child_ends_def verbose_def wrote_def)
  have "run_task ?w log_task worker0 =
       (Return (),
        emit (failed_download_events worker0 log_task
                @ [CountNumFailedTasks, Urlopen (cancel_job_url worker0 ''job1'') None])
          (worker0\<lparr>spawned := Suc (Suc (Suc (spawned worker0)))\<rparr>))"
    unfolding verbose_world_def by (rule run_task_test_cancel) simp
  then have c: "run_task ?w log_task worker0 =
       (Return (),
        emit (failed_download_events worker0 log_task
                @ [CountNumFailedTasks, Urlopen ''http://master/cancel_job?job_id=job1'' None])
          (worker0\<lparr>spawned := 3\<rparr>))"
    by (simp add: worker0_fields cancel_job_url_def numeral_3_eq_3)
  note d = download_attempted_three_times [OF a b, of log_task worker0]
  show ?thesis
    by (rule conjI [OF a conjI [OF b conjI [OF c d]]])
qed



end
